theory Spec2Isabelle
  imports Main "HOL-Library.AList" "HOL-Library.Word"
begin

section \<open>Python strings\<close>

text \<open>
  A Python \<open>str\<close> is modelled as a \<open>string\<close> whose characters are the code points
  below 256; \<open>len\<close> is \<open>length\<close>.
\<close>

definition py_isspace :: "char \<Rightarrow> bool" where
  \<comment> \<open>the characters \<open>str.strip()\<close> removes: \<open>\t \n \v \f \r\<close>, \<open>\x1c..\x1f\<close>, space,
      \<open>\x85\<close> and \<open>\xa0\<close>\<close>
  "py_isspace c =
     (let n = (of_char c :: nat)
      in (9 \<le> n \<and> n \<le> 13) \<or> (28 \<le> n \<and> n \<le> 32) \<or> n = 133 \<or> n = 160)"

definition strip :: "string \<Rightarrow> string" where
  "strip s = rev (dropWhile py_isspace (rev (dropWhile py_isspace s)))"

definition digit_char :: "nat \<Rightarrow> char" where
  "digit_char d = ''0123456789'' ! d"

function str_nat :: "nat \<Rightarrow> string" where
  "str_nat n = (if n < 10 then [digit_char n] else str_nat (n div 10) @ [digit_char (n mod 10)])"
  by pat_completeness auto
termination
  by (relation "measure (\<lambda>n. n)") auto

definition str_int :: "int \<Rightarrow> string" where
  \<comment> \<open>\<open>str(i)\<close> of a Python int\<close>
  "str_int i = (if i < 0 then CHR ''-'' # str_nat (nat (- i)) else str_nat (nat i))"

definition zfill :: "nat \<Rightarrow> string \<Rightarrow> string" where
  \<comment> \<open>\<open>s.zfill(w)\<close>: zeros go after a leading sign\<close>
  "zfill w s =
     (if w \<le> length s then s
      else (case s of
              c # cs \<Rightarrow>
                (if c = CHR ''+'' \<or> c = CHR ''-''
                 then c # replicate (w - length s) CHR ''0'' @ cs
                 else replicate (w - length s) CHR ''0'' @ s)
            | [] \<Rightarrow> replicate w CHR ''0''))"

definition startswith :: "string \<Rightarrow> string \<Rightarrow> bool" where
  "startswith s p = (take (length p) s = p)"

section \<open>The clock and the persisted state\<close>

record date =
  year :: nat
  month :: nat
  day :: nat

definition strftime_iso :: "date \<Rightarrow> string" where
  \<comment> \<open>\<open>strftime('%Y-%m-%d')\<close>\<close>
  "strftime_iso d =
     zfill 4 (str_nat (year d)) @ ''-'' @ zfill 2 (str_nat (month d)) @ ''-''
       @ zfill 2 (str_nat (day d))"

definition strftime_dmy :: "date \<Rightarrow> string" where
  \<comment> \<open>\<open>strftime('%d%m%Y')\<close>\<close>
  "strftime_dmy d =
     zfill 2 (str_nat (day d)) @ zfill 2 (str_nat (month d)) @ zfill 4 (str_nat (year d))"

definition calendar_date :: "date \<Rightarrow> bool" where
  \<comment> \<open>a reading of \<open>datetime.now()\<close> with a four-digit year\<close>
  "calendar_date d =
     (1000 \<le> year d \<and> 1 \<le> month d \<and> month d \<le> 12 \<and> 1 \<le> day d \<and> day d \<le> 31)"

text \<open>
  What one request finds around it: the two readings of \<open>datetime.now()\<close>, \<open>today\<close>
  inside the allocator and \<open>naming_day\<close> where the handler names the file and writes
  the header, and for each of the three \<open>try\<close> blocks that talk to the database whether
  it runs through (\<open>True\<close>) or raises.
\<close>

record env =
  today :: date
  naming_day :: date
  db_lookup_ok :: bool
  db_counter_ok :: bool
  db_save_ok :: bool

text \<open>The \<open>FileCounter\<close> row.\<close>

record file_counter =
  last_id :: int
  last_date :: string

text \<open>The dictionary read from \<open>counter.json\<close>; either key may be missing.\<close>

record counter_json =
  json_last_id :: "int option"
  json_last_date :: "string option"

text \<open>An \<open>UploadedFile\<close> row.\<close>

record uploaded_file =
  file_id :: string
  original_filename :: string
  csv_content :: string
  raw_content :: string
  raw_filename :: string
  file_hash :: string

record state =
  db_counter :: "file_counter option"         \<comment> \<open>\<open>FileCounter.query.first()\<close>\<close>
  db_uploaded :: "uploaded_file list"          \<comment> \<open>the \<open>UploadedFile\<close> table, oldest first\<close>
  counter_file :: "counter_json option"       \<comment> \<open>\<open>counter.json\<close>, \<open>None\<close> when it does not exist\<close>
  csv_files :: "string \<rightharpoonup> string"             \<comment> \<open>the files under \<open>csv_files/\<close>\<close>
  reconverted :: "string \<rightharpoonup> string"           \<comment> \<open>the files under \<open>reconverted/\<close>\<close>

section \<open>The sequence allocator\<close>

definition get_file_counter :: "env \<Rightarrow> state \<Rightarrow> int \<times> state" where
  "get_file_counter e st =
     (let today_s = strftime_iso (today e)
      in case counter_file st of
           None \<Rightarrow>
             (1, st\<lparr>counter_file :=
                       Some \<lparr>json_last_id = Some 1, json_last_date = Some today_s\<rparr>\<rparr>)
         | Some data \<Rightarrow>
             (let new_id =
                    (if json_last_date data \<noteq> Some today_s then 1
                     else (case json_last_id data of None \<Rightarrow> 0 | Some i \<Rightarrow> i) + 1)
              in (new_id,
                  st\<lparr>counter_file :=
                       Some \<lparr>json_last_id = Some new_id, json_last_date = Some today_s\<rparr>\<rparr>)))"

definition get_next_file_id :: "env \<Rightarrow> state \<Rightarrow> int \<times> state" where
  "get_next_file_id e st =
     (if db_counter_ok e then
        (let today_s = strftime_iso (today e)
         in case db_counter st of
              None \<Rightarrow> (1, st\<lparr>db_counter := Some \<lparr>last_id = 1, last_date = today_s\<rparr>\<rparr>)
            | Some counter \<Rightarrow>
                (let counter' =
                       (if last_date counter \<noteq> today_s
                        then \<lparr>last_id = 1, last_date = today_s\<rparr>
                        else counter\<lparr>last_id := last_id counter + 1\<rparr>)
                 in (last_id counter', st\<lparr>db_counter := Some counter'\<rparr>)))
      else get_file_counter e st)"

text \<open>The ids handed out by a run of calls, each in its own environment.\<close>

fun allocations :: "env list \<Rightarrow> state \<Rightarrow> int list" where
  "allocations [] st = []"
| "allocations (e # es) st =
     (case get_next_file_id e st of (i, st') \<Rightarrow> i # allocations es st')"

definition stored_counter :: "bool \<Rightarrow> state \<Rightarrow> (int \<times> string) option" where
  \<comment> \<open>the last id and date a backend holds (\<open>True\<close>: the database row, \<open>False\<close>: the file)\<close>
  "stored_counter primary st =
     (if primary then map_option (\<lambda>c. (last_id c, last_date c)) (db_counter st)
      else (case counter_file st of
              None \<Rightarrow> None
            | Some data \<Rightarrow>
                (case (json_last_id data, json_last_date data) of
                   (Some i, Some d) \<Rightarrow> Some (i, d)
                 | _ \<Rightarrow> None)))"

section \<open>Library functions\<close>

text \<open>
  The program calls four library functions whose code is not part of it. The conversion
  takes them as a parameter:
  \<^item> \<open>sha256_hexdigest s\<close> is \<open>hashlib.sha256(s.encode()).hexdigest()\<close>;
  \<^item> \<open>csv_reader s\<close> is \<open>list(csv.reader(s.splitlines()))\<close>, \<open>None\<close> when \<open>csv.Error\<close>
    is raised;
  \<^item> \<open>parse_dayfirst s\<close> is \<open>parser.parse(s, dayfirst=True).strftime('%d%m%Y')\<close>,
    \<open>None\<close> when the parser raises;
  \<^item> \<open>float_fixed k s\<close> is \<open>f"{float(s):.kf}"\<close>, \<open>None\<close> when \<open>float\<close> raises
    \<open>ValueError\<close>.
\<close>

record libs =
  sha256_hexdigest :: "string \<Rightarrow> string"
  csv_reader :: "string \<Rightarrow> string list list option"
  parse_dayfirst :: "string \<Rightarrow> string option"
  float_fixed :: "nat \<Rightarrow> string \<Rightarrow> string option"

section \<open>Constants of the converter\<close>

definition Bnfcry :: string where
  "Bnfcry = ''1207650000865934''"

definition RAW_HEADER_PREFIX :: string where
  "RAW_HEADER_PREFIX = ''076500DPADM''"

text \<open>
  A Python dictionary with string keys and values: its items in insertion order, every
  key once. \<open>AList.update k v d\<close> is \<open>d[k] = v\<close> and \<open>AList.delete k d\<close> is
  \<open>d.pop(k, None)\<close>.
\<close>

type_synonym row_dict = "(string \<times> string) list"

definition CONSTANT_FIELDS :: row_dict where
  "CONSTANT_FIELDS =
     [(''Bnfcry'', Bnfcry), (''Flg'', ''S''), (''Trf'', ''X''), (''Rsn'', ''2''),
      (''Paymod'', ''2'')]"

definition RAW_ORDER_NSDL :: "string list" where
  "RAW_ORDER_NSDL =
     [''Tp'', ''Dt'', ''Bnfcry'', ''ISIN'', ''Qty'', ''Flg'', ''Trf'', ''Clnt'', ''Brkr'',
      ''Rsn'', ''Conamt'', ''Paymod'', ''Bnkno'', ''Bnkname'', ''Brnchname'', ''Xferdt'',
      ''Chqrefno'']"

definition RAW_ORDER_CDSL :: "string list" where
  "RAW_ORDER_CDSL =
     [''Tp'', ''Dt'', ''Bnfcry'', ''CtrPty'', ''ISIN'', ''Qty'', ''Flg'', ''Trf'',
      ''Rsn'', ''Conamt'', ''Paymod'', ''Bnkno'', ''Bnkname'', ''Brnchname'', ''Xferdt'',
      ''Chqrefno'']"

section \<open>Responses\<close>

text \<open>
  Every \<open>return\<close> of \<open>upload_csv\<close> is one constructor; \<open>message\<close> is the text the
  handler returns for it. \<open>UnhandledCsvError\<close> stands for \<open>csv.Error\<close> leaving the
  handler, which has no \<open>except\<close> around the reader.
\<close>

datatype response =
    NoFileUploaded
  | FileAlreadyExists string
  | CsvFormatInvalid
  | MissingDtFirstRow
  | InvalidDtFirstRow string
  | DtMismatch string string
  | InvalidDt string
  | InvalidCtrPty string
  | InvalidQty string
  | InvalidConamt string
  | RawFileCreated string
  | UnhandledCsvError


section \<open>Rows as dictionaries\<close>

definition py_dict :: "(string \<times> string) list \<Rightarrow> row_dict" where
  \<comment> \<open>\<open>dict(pairs)\<close>: a key that occurs twice keeps its last value\<close>
  "py_dict pairs = fold (\<lambda>kv. AList.update (fst kv) (snd kv)) pairs []"

definition lookup :: "row_dict \<Rightarrow> string \<Rightarrow> string option" where
  \<comment> \<open>\<open>Some d[k]\<close> when \<open>k in d\<close>, else \<open>None\<close>\<close>
  "lookup d k = map_of d k"

definition get :: "row_dict \<Rightarrow> string \<Rightarrow> string \<Rightarrow> string" where
  \<comment> \<open>\<open>d.get(k, default)\<close>\<close>
  "get d k dflt = (case lookup d k of None \<Rightarrow> dflt | Some v \<Rightarrow> v)"

definition strip_values :: "row_dict \<Rightarrow> row_dict" where
  \<comment> \<open>\<open>{k: v.strip() for k, v in d.items()}\<close>\<close>
  "strip_values d = map (\<lambda>kv. (fst kv, strip (snd kv))) d"

definition py_merge :: "row_dict \<Rightarrow> row_dict \<Rightarrow> row_dict" where
  \<comment> \<open>\<open>{**a, **b}\<close>\<close>
  "py_merge a b = fold (\<lambda>kv. AList.update (fst kv) (snd kv)) b a"

definition replace_commas :: "string \<Rightarrow> string" where
  \<comment> \<open>\<open>s.replace(",", "")\<close>\<close>
  "replace_commas s = filter (\<lambda>c. c \<noteq> CHR '','') s"

definition join :: "string \<Rightarrow> string list \<Rightarrow> string" where
  \<comment> \<open>\<open>sep.join(xs)\<close>\<close>
  "join sep xs = (case xs of [] \<Rightarrow> [] | x # ys \<Rightarrow> x @ concat (map (\<lambda>y. sep @ y) ys))"

section \<open>Batch date validation\<close>

text \<open>The loop over \<open>data_rows\<close> that compares every row's \<open>Dt\<close> with \<open>file_date\<close>;
  \<open>Some r\<close> is the \<open>return\<close> that leaves it.\<close>

fun check_dates :: "libs \<Rightarrow> string list \<Rightarrow> string \<Rightarrow> string list list \<Rightarrow> response option" where
  "check_dates L headers file_date [] = None"
| "check_dates L headers file_date (row # rows) =
     (case lookup (py_dict (zip headers row)) ''Dt'' of
        None \<Rightarrow> check_dates L headers file_date rows
      | Some v \<Rightarrow>
          (if v = [] then check_dates L headers file_date rows
           else (case parse_dayfirst L v of
                   None \<Rightarrow> Some (InvalidDt v)
                 | Some dt_val \<Rightarrow>
                     (if dt_val \<noteq> file_date then Some (DtMismatch dt_val file_date)
                      else check_dates L headers file_date rows))))"

text \<open>The steps from the parsed rows up to the allocation of the file id: \<open>Inl\<close> is an
  early \<open>return\<close>, \<open>Inr\<close> carries \<open>headers\<close>, \<open>data_rows\<close> and \<open>file_date\<close>.\<close>

definition validate_batch ::
  "libs \<Rightarrow> string list list \<Rightarrow> response + (string list \<times> string list list \<times> string)" where
  "validate_batch L all_rows =
     (if length all_rows < 2 then Inl CsvFormatInvalid
      else
        (let headers = map strip (hd all_rows);
             data_rows = tl all_rows
         in case lookup (py_dict (zip headers (hd data_rows))) ''Dt'' of
              None \<Rightarrow> Inl MissingDtFirstRow
            | Some v \<Rightarrow>
                (if v = [] then Inl MissingDtFirstRow
                 else (case parse_dayfirst L v of
                         None \<Rightarrow> Inl (InvalidDtFirstRow v)
                       | Some file_date \<Rightarrow>
                           (case check_dates L headers file_date data_rows of
                              Some r \<Rightarrow> Inl r
                            | None \<Rightarrow> Inr (headers, data_rows, file_date))))))"

section \<open>Row classification, normalisation and encoding\<close>

definition normalize_dt :: "libs \<Rightarrow> row_dict \<Rightarrow> response + row_dict" where
  "normalize_dt L row_dict =
     (case lookup row_dict ''Dt'' of
        None \<Rightarrow> Inr row_dict
      | Some v \<Rightarrow>
          (if v = [] then Inr row_dict
           else (case parse_dayfirst L v of
                   None \<Rightarrow> Inl (InvalidDt v)
                 | Some d \<Rightarrow> Inr (AList.update ''Dt'' d row_dict))))"

definition split_ctrpty :: "bool \<Rightarrow> string \<Rightarrow> row_dict \<Rightarrow> row_dict" where
  \<comment> \<open>the two branches on \<open>is_nsdl\<close>\<close>
  "split_ctrpty is_nsdl ctrpty row_dict =
     (if is_nsdl
      then AList.update ''Clnt'' (drop 8 ctrpty) (AList.update ''Brkr'' (take 8 ctrpty) row_dict)
      else AList.delete ''Brkr'' (AList.delete ''Clnt'' (AList.update ''CtrPty'' ctrpty row_dict)))"

definition format_qty :: "libs \<Rightarrow> row_dict \<Rightarrow> response + row_dict" where
  "format_qty L row_dict =
     (let qty = replace_commas (get row_dict ''Qty'' '''')
      in if qty \<noteq> [] then
           (case float_fixed L 3 qty of
              None \<Rightarrow> Inl (InvalidQty (get row_dict ''Qty'' ''''))
            | Some s \<Rightarrow> Inr (AList.update ''Qty'' s row_dict))
         else Inr row_dict)"

definition format_conamt :: "libs \<Rightarrow> row_dict \<Rightarrow> response + row_dict" where
  "format_conamt L row_dict =
     (let conamt = replace_commas (get row_dict ''Conamt'' '''')
      in if conamt \<noteq> [] then
           (case float_fixed L 2 conamt of
              None \<Rightarrow> Inl (InvalidConamt (get row_dict ''Conamt'' ''''))
            | Some s \<Rightarrow> Inr (AList.update ''Conamt'' s row_dict))
         else Inr row_dict)"

definition pad_chqrefno :: "row_dict \<Rightarrow> row_dict" where
  "pad_chqrefno row_dict =
     (let chqref = strip (get row_dict ''Chqrefno'' '''')
      in AList.update ''Chqrefno'' (if chqref \<noteq> [] then zfill 8 chqref else ''00000000'')
           row_dict)"

definition tag_fields :: "string list \<Rightarrow> row_dict \<Rightarrow> (string \<times> string) list" where
  \<comment> \<open>the tags of one line with their values, in the order of the template\<close>
  "tag_fields order merged = map (\<lambda>k. (k, get merged k '''')) order"

definition render_tag :: "string \<times> string \<Rightarrow> string" where
  "render_tag kv = ''<'' @ fst kv @ ''>'' @ snd kv @ ''</'' @ fst kv @ ''>''"

definition render_line :: "(string \<times> string) list \<Rightarrow> string" where
  "render_line tags = concat (map render_tag tags)"

text \<open>One pass of the loop that builds the body: \<open>Inl\<close> is the \<open>return\<close> of an error,
  \<open>Inr\<close> the tags of the line appended to \<open>output_lines\<close>.\<close>

definition row_fields :: "libs \<Rightarrow> string list \<Rightarrow> string list \<Rightarrow> response + (string \<times> string) list" where
  "row_fields L headers row =
     (case normalize_dt L (strip_values (py_dict (zip headers row))) of
        Inl r \<Rightarrow> Inl r
      | Inr d1 \<Rightarrow>
          (let d2 = AList.update ''Xferdt'' (get d1 ''Dt'' '''') d1;
               ctrpty = get d2 ''CtrPty'' ''''
           in if ctrpty = [] \<or> length ctrpty \<noteq> 16 then Inl (InvalidCtrPty ctrpty)
              else
                (let is_nsdl = startswith ctrpty ''IN'';
                     tp_value = (if is_nsdl then ''4'' else ''5'');
                     d3 = split_ctrpty is_nsdl ctrpty d2;
                     order = (if is_nsdl then RAW_ORDER_NSDL else RAW_ORDER_CDSL)
                 in case format_qty L d3 of
                      Inl r \<Rightarrow> Inl r
                    | Inr d4 \<Rightarrow>
                        (case format_conamt L d4 of
                           Inl r \<Rightarrow> Inl r
                         | Inr d5 \<Rightarrow>
                             (let d6 = pad_chqrefno d5;
                                  merged = AList.update ''Tp'' tp_value (py_merge CONSTANT_FIELDS d6)
                              in Inr (tag_fields order merged))))))"

definition encode_row :: "libs \<Rightarrow> string list \<Rightarrow> string list \<Rightarrow> response + string" where
  "encode_row L headers row = map_sum id render_line (row_fields L headers row)"

fun build_body :: "libs \<Rightarrow> string list \<Rightarrow> string list list \<Rightarrow> response + string list" where
  "build_body L headers [] = Inr []"
| "build_body L headers (row # rows) =
     (case encode_row L headers row of
        Inl r \<Rightarrow> Inl r
      | Inr line \<Rightarrow>
          (case build_body L headers rows of
             Inl r \<Rightarrow> Inl r
           | Inr lines \<Rightarrow> Inr (line # lines)))"

section \<open>The upload handler\<close>

record upload =
  filename :: string
  content :: string    \<comment> \<open>\<open>file.read().decode('utf-8')\<close>\<close>

definition file_name :: "string \<Rightarrow> string \<Rightarrow> string" where
  "file_name todays_date fid = ''18'' @ Bnfcry @ ''.'' @ todays_date @ ''.'' @ fid"

definition raw_header :: "string \<Rightarrow> string \<Rightarrow> string \<Rightarrow> string" where
  "raw_header row_count fid todays_date =
     RAW_HEADER_PREFIX @ '' '' @ row_count @ fid @ todays_date"

definition save_upload :: "env \<Rightarrow> uploaded_file \<Rightarrow> state \<Rightarrow> state" where
  \<comment> \<open>the optional database record, then the two files\<close>
  "save_upload e u st =
     (let st1 = (if db_save_ok e then st\<lparr>db_uploaded := db_uploaded st @ [u]\<rparr> else st)
      in st1\<lparr>csv_files := (csv_files st1)(file_id u @ ''.csv'' \<mapsto> csv_content u),
             reconverted := (reconverted st1)(raw_filename u \<mapsto> raw_content u)\<rparr>)"

definition find_duplicate :: "env \<Rightarrow> state \<Rightarrow> string \<Rightarrow> uploaded_file option" where
  \<comment> \<open>the duplicate check; an exception of the query is swallowed\<close>
  "find_duplicate e st h =
     (if db_lookup_ok e then find (\<lambda>u. file_hash u = h) (db_uploaded st) else None)"

definition upload_csv :: "libs \<Rightarrow> env \<Rightarrow> state \<Rightarrow> upload option \<Rightarrow> response \<times> state" where
  "upload_csv L e st file =
     (case file of
        None \<Rightarrow> (NoFileUploaded, st)
      | Some f \<Rightarrow>
          if filename f = [] then (NoFileUploaded, st)
          else
            (let csv_text = content f;
                 hash = sha256_hexdigest L csv_text
             in case find_duplicate e st hash of
                  Some existing_file \<Rightarrow> (FileAlreadyExists (raw_filename existing_file), st)
                | None \<Rightarrow>
                    (case csv_reader L csv_text of
                       None \<Rightarrow> (UnhandledCsvError, st)
                     | Some all_rows \<Rightarrow>
                         (case validate_batch L all_rows of
                            Inl r \<Rightarrow> (r, st)
                          | Inr (headers, data_rows, file_date) \<Rightarrow>
                              (case get_next_file_id e st of
                                 (file_id_int, st1) \<Rightarrow>
                                   (let row_count = zfill 6 (str_nat (length data_rows));
                                        fid = zfill 5 (str_int file_id_int);
                                        todays_date = strftime_dmy (naming_day e);
                                        fname = file_name todays_date fid;
                                        header = raw_header row_count fid todays_date
                                    in case build_body L headers data_rows of
                                         Inl r \<Rightarrow> (r, st1)
                                       | Inr lines \<Rightarrow>
                                           (RawFileCreated fname,
                                            save_upload e
                                              \<lparr>file_id = fid,
                                               original_filename = filename f,
                                               csv_content = csv_text,
                                               raw_content = join [CHR 0x0A] (header # lines @ ['''']),
                                               raw_filename = fname,
                                               file_hash = hash\<rparr>
                                              st1)))))))"

section \<open>Models of the library functions\<close>

text \<open>
  The closed examples below need the library functions at concrete inputs. This section
  models them from the behaviour of CPython and \<open>python-dateutil\<close>. Every theorem that
  is stated for an arbitrary \<open>libs\<close> is independent of these models.
\<close>

subsection \<open>\<open>str.splitlines\<close> and \<open>csv.reader\<close>\<close>

definition is_linebreak :: "char \<Rightarrow> bool" where
  \<comment> \<open>\<open>\n \v \f \r\<close>, \<open>\x1c \x1d \x1e\<close> and \<open>\x85\<close>\<close>
  "is_linebreak c =
     (let n = (of_char c :: nat) in (10 \<le> n \<and> n \<le> 13) \<or> (28 \<le> n \<and> n \<le> 30) \<or> n = 133)"

text \<open>The first argument is the line read so far, newest character first.\<close>

fun splitlines_from :: "string \<Rightarrow> string \<Rightarrow> string list" where
  "splitlines_from cur [] = (if cur = [] then [] else [rev cur])"
| "splitlines_from cur [c] = (if is_linebreak c then [rev cur] else [rev (c # cur)])"
| "splitlines_from cur (c # d # cs) =
     (if c = CHR 0x0D \<and> d = CHR 0x0A then rev cur # splitlines_from [] cs
      else if is_linebreak c then rev cur # splitlines_from [] (d # cs)
      else splitlines_from (c # cur) (d # cs))"

definition splitlines :: "string \<Rightarrow> string list" where
  "splitlines s = splitlines_from [] s"

text \<open>
  The reader of the \<open>csv\<close> module with its default dialect (delimiter \<open>,\<close>, quote
  character \<open>"\<close>, doubled quotes, no escape character, not strict): the state machine
  of \<open>parse_process_char\<close>. A character \<open>None\<close> is the end of a line.
\<close>

datatype parser_state =
  START_RECORD | START_FIELD | IN_FIELD | IN_QUOTED_FIELD | QUOTE_IN_QUOTED_FIELD | EAT_CRNL

record reader =
  pstate :: parser_state
  cur_field :: string          \<comment> \<open>the field being read, newest character first\<close>
  saved :: "string list"       \<comment> \<open>the fields of the record so far, newest first\<close>

definition parse_reset :: reader where
  "parse_reset = \<lparr>pstate = START_RECORD, cur_field = [], saved = []\<rparr>"

definition field_limit :: nat where
  "field_limit = 131072"

definition parse_add_char :: "reader \<Rightarrow> char \<Rightarrow> reader option" where
  "parse_add_char r c =
     (if field_limit \<le> length (cur_field r) then None
      else Some (r\<lparr>cur_field := c # cur_field r\<rparr>))"

definition parse_save_field :: "reader \<Rightarrow> reader" where
  "parse_save_field r = r\<lparr>saved := rev (cur_field r) # saved r, cur_field := []\<rparr>"

definition is_crlf :: "char \<Rightarrow> bool" where
  "is_crlf c = (c = CHR 0x0A \<or> c = CHR 0x0D)"

definition start_field :: "reader \<Rightarrow> char option \<Rightarrow> reader option" where
  "start_field r c =
     (case c of
        None \<Rightarrow> Some ((parse_save_field r)\<lparr>pstate := START_RECORD\<rparr>)
      | Some ch \<Rightarrow>
          if is_crlf ch then Some ((parse_save_field r)\<lparr>pstate := EAT_CRNL\<rparr>)
          else if ch = CHR 0x22 then Some (r\<lparr>pstate := IN_QUOTED_FIELD\<rparr>)
          else if ch = CHR '','' then Some (parse_save_field r)
          else map_option (\<lambda>r'. r'\<lparr>pstate := IN_FIELD\<rparr>) (parse_add_char r ch))"

definition parse_process_char :: "reader \<Rightarrow> char option \<Rightarrow> reader option" where
  "parse_process_char r c =
     (case pstate r of
        START_RECORD \<Rightarrow>
          (case c of
             None \<Rightarrow> Some r
           | Some ch \<Rightarrow>
               if is_crlf ch then Some (r\<lparr>pstate := EAT_CRNL\<rparr>)
               else start_field (r\<lparr>pstate := START_FIELD\<rparr>) c)
      | START_FIELD \<Rightarrow> start_field r c
      | IN_FIELD \<Rightarrow>
          (case c of
             None \<Rightarrow> Some ((parse_save_field r)\<lparr>pstate := START_RECORD\<rparr>)
           | Some ch \<Rightarrow>
               if is_crlf ch then Some ((parse_save_field r)\<lparr>pstate := EAT_CRNL\<rparr>)
               else if ch = CHR '','' then Some ((parse_save_field r)\<lparr>pstate := START_FIELD\<rparr>)
               else parse_add_char r ch)
      | IN_QUOTED_FIELD \<Rightarrow>
          (case c of
             None \<Rightarrow> Some r
           | Some ch \<Rightarrow>
               if ch = CHR 0x22 then Some (r\<lparr>pstate := QUOTE_IN_QUOTED_FIELD\<rparr>)
               else parse_add_char r ch)
      | QUOTE_IN_QUOTED_FIELD \<Rightarrow>
          (case c of
             None \<Rightarrow> Some ((parse_save_field r)\<lparr>pstate := START_RECORD\<rparr>)
           | Some ch \<Rightarrow>
               if ch = CHR 0x22
               then map_option (\<lambda>r'. r'\<lparr>pstate := IN_QUOTED_FIELD\<rparr>) (parse_add_char r ch)
               else if ch = CHR '','' then Some ((parse_save_field r)\<lparr>pstate := START_FIELD\<rparr>)
               else if is_crlf ch then Some ((parse_save_field r)\<lparr>pstate := EAT_CRNL\<rparr>)
               else map_option (\<lambda>r'. r'\<lparr>pstate := IN_FIELD\<rparr>) (parse_add_char r ch))
      | EAT_CRNL \<Rightarrow>
          (case c of
             None \<Rightarrow> Some (r\<lparr>pstate := START_RECORD\<rparr>)
           | Some ch \<Rightarrow> if is_crlf ch then Some r else None))"

text \<open>One line: its characters, then the end of the line.\<close>

fun process_line :: "reader \<Rightarrow> string \<Rightarrow> reader option" where
  "process_line r [] = parse_process_char r None"
| "process_line r (c # cs) =
     (case parse_process_char r (Some c) of
        None \<Rightarrow> None
      | Some r' \<Rightarrow> process_line r' cs)"

text \<open>
  \<open>list(reader)\<close>: a record ends with the line after which the state is \<open>START_RECORD\<close>;
  when the lines run out inside a quoted field the record read so far is returned.
\<close>

fun read_records :: "reader \<Rightarrow> string list \<Rightarrow> string list list option" where
  "read_records r [] =
     (if cur_field r \<noteq> [] \<or> pstate r = IN_QUOTED_FIELD
      then Some [rev (saved (parse_save_field r))] else Some [])"
| "read_records r (l # ls) =
     (case process_line r l of
        None \<Rightarrow> None
      | Some r' \<Rightarrow>
          if pstate r' = START_RECORD
          then map_option (\<lambda>rows. rev (saved r') # rows) (read_records parse_reset ls)
          else read_records r' ls)"

definition csv_rows :: "string \<Rightarrow> string list list option" where
  "csv_rows s = read_records parse_reset (splitlines s)"

subsection \<open>Day-first dates\<close>

definition is_digit :: "char \<Rightarrow> bool" where
  "is_digit c = (let n = (of_char c :: nat) in 48 \<le> n \<and> n \<le> 57)"

definition nat_of_digits :: "string \<Rightarrow> nat" where
  "nat_of_digits s = foldl (\<lambda>n c. 10 * n + (of_char c - 48)) 0 s"

definition days_in_month :: "nat \<Rightarrow> nat \<Rightarrow> nat" where
  "days_in_month y m =
     (if m = 2 then (if y mod 4 = 0 \<and> (y mod 100 \<noteq> 0 \<or> y mod 400 = 0) then 29 else 28)
      else if m = 4 \<or> m = 6 \<or> m = 9 \<or> m = 11 then 30 else 31)"

text \<open>
  The all-numeric dates as \<open>dateutil\<close> resolves them with \<open>dayfirst=True\<close>, white
  space around them ignored: three numbers with the same separator \<open>/\<close> or \<open>-\<close> twice.
  \<^item> \<open>a/b/yyyy\<close> (one or two digits, then a four-digit year): the first number is the
    day unless only the second can be one (\<open>a \<le> 12 < b\<close>).
  \<^item> \<open>yyyy-b-c\<close> (a four-digit year first): the last number is the month whenever it can
    be one (\<open>c \<le> 12\<close>), so \<open>2024-02-01\<close> is 2 January.
  A date that does not exist raises. The model covers years from 1000 on and these two
  forms only: for every other string (month names, times, two-digit years) it answers
  \<open>None\<close>, also where the library would parse.
\<close>

definition valid_dmy :: "nat \<Rightarrow> nat \<Rightarrow> nat \<Rightarrow> string option" where
  \<comment> \<open>the date of a year, a month and a day as \<open>ddmmyyyy\<close>, if there is such a date\<close>
  "valid_dmy y m d =
     (if 1000 \<le> y \<and> 1 \<le> m \<and> m \<le> 12 \<and> 1 \<le> d \<and> d \<le> days_in_month y m
      then Some (strftime_dmy \<lparr>year = y, month = m, day = d\<rparr>) else None)"

definition dayfirst_numeric :: "string \<Rightarrow> string option" where
  "dayfirst_numeric s =
     (let t = strip s; a = takeWhile is_digit t; r1 = dropWhile is_digit t
      in case r1 of
           [] \<Rightarrow> None
         | sep # r2 \<Rightarrow>
             (let b = takeWhile is_digit r2; r3 = dropWhile is_digit r2
              in case r3 of
                   [] \<Rightarrow> None
                 | sep' # c \<Rightarrow>
                     if (sep = CHR ''/'' \<or> sep = CHR ''-'') \<and> sep' = sep
                        \<and> length b \<in> {1, 2} \<and> list_all is_digit c
                     then
                       (let av = nat_of_digits a; bv = nat_of_digits b; cv = nat_of_digits c
                        in if length a \<in> {1, 2} \<and> length c = 4 then
                             (if 31 < av then None
                              else if 12 < av \<or> bv \<le> 12 then valid_dmy cv bv av
                              else valid_dmy cv av bv)
                           else if length a = 4 \<and> length c \<in> {1, 2} then
                             (if cv \<le> 12 then valid_dmy av cv bv else valid_dmy av bv cv)
                           else None)
                     else None))"

subsection \<open>\<open>float\<close> and fixed-point formatting\<close>

text \<open>
  A binary64 value: \<open>Finite neg n t\<close> is \<open>\<plusminus> n \<sqdot> 2\<^sup>t\<close>.
\<close>

datatype pyfloat = Finite bool nat int | Infinite bool | NaN

function bit_length :: "nat \<Rightarrow> nat" where
  "bit_length n = (if n = 0 then 0 else Suc (bit_length (n div 2)))"
  by pat_completeness auto
termination
  by (relation "measure (\<lambda>n. n)") auto

definition round_half_even :: "nat \<Rightarrow> nat \<Rightarrow> nat" where
  \<comment> \<open>the integer nearest to \<open>num / den\<close>, a tie going to the even one\<close>
  "round_half_even num den =
     (let q = num div den; r = num mod den
      in if den < 2 * r \<or> (2 * r = den \<and> odd q) then q + 1 else q)"

definition scaled :: "nat \<Rightarrow> nat \<Rightarrow> int \<Rightarrow> nat \<times> nat" where
  \<comment> \<open>\<open>p / q / 2\<^sup>t\<close> as a fraction\<close>
  "scaled p q t = (if 0 \<le> t then (p, q * 2 ^ nat t) else (p * 2 ^ nat (- t), q))"

definition to_double :: "bool \<Rightarrow> nat \<Rightarrow> nat \<Rightarrow> pyfloat" where
  \<comment> \<open>the binary64 value nearest to \<open>\<plusminus> p / q\<close> (\<open>0 < q\<close>), ties to even\<close>
  "to_double neg p q =
     (if p = 0 then Finite neg 0 0
      else
        (let t0 = int (bit_length p) - int (bit_length q) - 53;
             t1 = (if 2 ^ 53 \<le> fst (scaled p q t0) div snd (scaled p q t0) then t0 + 1 else t0);
             t = max t1 (- 1074);
             n = round_half_even (fst (scaled p q t)) (snd (scaled p q t))
         in if 971 < t \<or> (t = 971 \<and> n = 2 ^ 53) then Infinite neg else Finite neg n t))"

text \<open>
  The check of the underscores in a numeric literal: an underscore stands between two
  digits. The first argument is the previous character.
\<close>

fun strip_underscores :: "char \<Rightarrow> string \<Rightarrow> string option" where
  "strip_underscores prev [] = (if prev = CHR ''_'' then None else Some [])"
| "strip_underscores prev (c # cs) =
     (if c = CHR ''_'' then (if is_digit prev then strip_underscores c cs else None)
      else if prev = CHR ''_'' \<and> \<not> is_digit c then None
      else map_option (\<lambda>r. c # r) (strip_underscores c cs))"

definition to_lower :: "char \<Rightarrow> char" where
  "to_lower c =
     (let n = (of_char c :: nat) in if 65 \<le> n \<and> n \<le> 90 then char_of (n + 32) else c)"

text \<open>A decimal literal without its sign: the digits as a number and the power of ten.\<close>

definition parse_decimal :: "string \<Rightarrow> (nat \<times> int) option" where
  "parse_decimal s =
     (let ip = takeWhile is_digit s; r1 = dropWhile is_digit s;
          fp = (case r1 of c # r \<Rightarrow> if c = CHR ''.'' then takeWhile is_digit r else [] | [] \<Rightarrow> []);
          r2 = (case r1 of c # r \<Rightarrow> if c = CHR ''.'' then dropWhile is_digit r else r1 | [] \<Rightarrow> []);
          m = nat_of_digits (ip @ fp)
      in if ip = [] \<and> fp = [] then None
         else (case r2 of
                 [] \<Rightarrow> Some (m, - int (length fp))
               | c # r \<Rightarrow>
                   if c = CHR ''e'' \<or> c = CHR ''E'' then
                     (let neg = (case r of x # _ \<Rightarrow> x = CHR ''-'' | [] \<Rightarrow> False);
                          ds = (case r of
                                  x # xs \<Rightarrow> if x = CHR ''+'' \<or> x = CHR ''-'' then xs else r
                                | [] \<Rightarrow> [])
                      in if ds \<noteq> [] \<and> list_all is_digit ds
                         then Some (m, (if neg then - int (nat_of_digits ds)
                                        else int (nat_of_digits ds)) - int (length fp))
                         else None)
                   else None))"

definition py_float :: "string \<Rightarrow> pyfloat option" where
  \<comment> \<open>\<open>float(s)\<close>, \<open>None\<close> for \<open>ValueError\<close>\<close>
  "py_float s =
     (case strip_underscores (CHR 0x00) (strip s) of
        None \<Rightarrow> None
      | Some s1 \<Rightarrow>
          (let neg = (case s1 of c # _ \<Rightarrow> c = CHR ''-'' | [] \<Rightarrow> False);
               body = (case s1 of
                         c # r \<Rightarrow> if c = CHR ''+'' \<or> c = CHR ''-'' then r else s1
                       | [] \<Rightarrow> []);
               low = map to_lower body
           in if low = ''inf'' \<or> low = ''infinity'' then Some (Infinite neg)
              else if low = ''nan'' then Some NaN
              else (case parse_decimal body of
                      None \<Rightarrow> None
                    | Some (m, e) \<Rightarrow>
                        Some (if 0 \<le> e then to_double neg (m * 10 ^ nat e) 1
                              else to_double neg m (10 ^ nat (- e))))))"

definition format_fixed :: "nat \<Rightarrow> pyfloat \<Rightarrow> string" where
  \<comment> \<open>\<open>f"{x:.kf}"\<close>\<close>
  "format_fixed k x =
     (case x of
        NaN \<Rightarrow> ''nan''
      | Infinite neg \<Rightarrow> (if neg then ''-inf'' else ''inf'')
      | Finite neg n t \<Rightarrow>
          (let N = (if 0 \<le> t then n * 2 ^ nat t * 10 ^ k
                    else round_half_even (n * 10 ^ k) (2 ^ nat (- t)))
           in (if neg then ''-'' else '''')
                @ str_nat (N div 10 ^ k)
                @ (if k = 0 then '''' else ''.'' @ zfill k (str_nat (N mod 10 ^ k)))))"

definition float_fixed_py :: "nat \<Rightarrow> string \<Rightarrow> string option" where
  "float_fixed_py k s = map_option (format_fixed k) (py_float s)"

subsection \<open>SHA-256\<close>

text \<open>\<open>s.encode()\<close>: the UTF-8 bytes of the code points below 256.\<close>

definition utf8_encode :: "string \<Rightarrow> nat list" where
  "utf8_encode s =
     concat (map (\<lambda>c. let n = (of_char c :: nat)
                       in if n < 128 then [n] else [192 + n div 64, 128 + n mod 64]) s)"

text \<open>
  The constants of FIPS 180-4: the first 32 bits of the fractional parts of the cube
  roots (round constants) and of the square roots (initial hash value) of the first
  primes.
\<close>

definition floor_root :: "nat \<Rightarrow> nat \<Rightarrow> nat" where
  \<comment> \<open>the largest \<open>r < 2\<^sup>4\<^sup>0\<close> with \<open>r\<^sup>k \<le> n\<close>, found bit by bit\<close>
  "floor_root k n = fold (\<lambda>b r. if (r + 2 ^ b) ^ k \<le> n then r + 2 ^ b else r) (rev [0..<40]) 0"

definition first_primes :: "nat list" where
  "first_primes = filter (\<lambda>p. \<forall>d \<in> {2..<p}. p mod d \<noteq> 0) [2..<312]"

definition sha256_K :: "32 word list" where
  "sha256_K = map (\<lambda>p. of_nat (floor_root 3 (p * 2 ^ 96))) first_primes"

definition sha256_H0 :: "32 word list" where
  "sha256_H0 = map (\<lambda>p. of_nat (floor_root 2 (p * 2 ^ 64))) (take 8 first_primes)"

definition be_bytes :: "nat \<Rightarrow> nat \<Rightarrow> nat list" where
  \<comment> \<open>the \<open>n\<close> low bytes of a number, most significant first\<close>
  "be_bytes n v = map (\<lambda>i. (v div 256 ^ (n - 1 - i)) mod 256) [0..<n]"

definition sha256_pad :: "nat list \<Rightarrow> nat list" where
  "sha256_pad m =
     m @ [128] @ replicate ((119 - length m mod 64) mod 64) 0 @ be_bytes 8 (8 * length m)"

function chunks :: "nat \<Rightarrow> 'a list \<Rightarrow> 'a list list" where
  "chunks n xs = (if n = 0 \<or> xs = [] then [] else take n xs # chunks n (drop n xs))"
  by pat_completeness auto
termination
  by (relation "measure (\<lambda>(n, xs). length xs)") auto

definition be_word :: "nat list \<Rightarrow> 32 word" where
  "be_word bs = of_nat (foldl (\<lambda>v b. 256 * v + b) 0 bs)"

definition Ch :: "32 word \<Rightarrow> 32 word \<Rightarrow> 32 word \<Rightarrow> 32 word" where
  "Ch x y z = xor (and x y) (and (not x) z)"

definition Maj :: "32 word \<Rightarrow> 32 word \<Rightarrow> 32 word \<Rightarrow> 32 word" where
  "Maj x y z = xor (xor (and x y) (and x z)) (and y z)"

definition Sigma0 :: "32 word \<Rightarrow> 32 word" where
  "Sigma0 x = xor (xor (word_rotr 2 x) (word_rotr 13 x)) (word_rotr 22 x)"

definition Sigma1 :: "32 word \<Rightarrow> 32 word" where
  "Sigma1 x = xor (xor (word_rotr 6 x) (word_rotr 11 x)) (word_rotr 25 x)"

definition sigma0 :: "32 word \<Rightarrow> 32 word" where
  "sigma0 x = xor (xor (word_rotr 7 x) (word_rotr 18 x)) (drop_bit 3 x)"

definition sigma1 :: "32 word \<Rightarrow> 32 word" where
  "sigma1 x = xor (xor (word_rotr 17 x) (word_rotr 19 x)) (drop_bit 10 x)"

definition schedule :: "32 word list \<Rightarrow> 32 word list" where
  "schedule block =
     fold (\<lambda>i w. w @ [sigma1 (w ! (i - 2)) + w ! (i - 7) + sigma0 (w ! (i - 15)) + w ! (i - 16)])
          [16..<64] block"

definition sha256_round :: "32 word \<times> 32 word \<Rightarrow> 32 word list \<Rightarrow> 32 word list" where
  "sha256_round kw v =
     (case v of
        [a, b, c, d, e, f, g, h] \<Rightarrow>
          (let T1 = h + Sigma1 e + Ch e f g + fst kw + snd kw;
               T2 = Sigma0 a + Maj a b c
           in [T1 + T2, a, b, c, d + T1, e, f, g])
      | _ \<Rightarrow> v)"

definition sha256_compress :: "nat list \<Rightarrow> 32 word list \<Rightarrow> 32 word list" where
  "sha256_compress block H =
     map2 (+) H (fold sha256_round (zip sha256_K (schedule (map be_word (chunks 4 block)))) H)"

definition hex_digit :: "nat \<Rightarrow> char" where
  "hex_digit d = ''0123456789abcdef'' ! d"

definition hex_word :: "32 word \<Rightarrow> string" where
  "hex_word w = map (\<lambda>i. hex_digit ((unat w div 16 ^ (7 - i)) mod 16)) [0..<8]"

definition sha256_hex :: "string \<Rightarrow> string" where
  \<comment> \<open>\<open>hashlib.sha256(s.encode()).hexdigest()\<close>\<close>
  "sha256_hex s =
     concat (map hex_word (fold sha256_compress (chunks 64 (sha256_pad (utf8_encode s))) sha256_H0))"

subsection \<open>The libraries of the program\<close>

definition py_libs :: libs where
  "py_libs =
     \<lparr>sha256_hexdigest = sha256_hex,
      csv_reader = csv_rows,
      parse_dayfirst = dayfirst_numeric,
      float_fixed = float_fixed_py\<rparr>"

section \<open>Example inputs\<close>

definition st_empty :: state where
  \<comment> \<open>a fresh installation: empty tables, no counter file, empty folders\<close>
  "st_empty =
     \<lparr>db_counter = None, db_uploaded = [], counter_file = None,
      csv_files = Map.empty, reconverted = Map.empty\<rparr>"

definition env_on :: "date \<Rightarrow> bool \<Rightarrow> env" where
  \<comment> \<open>a request on a given day, with the database up or down\<close>
  "env_on d up =
     \<lparr>today = d, naming_day = d, db_lookup_ok = up, db_counter_ok = up, db_save_ok = up\<rparr>"

definition nov3 :: date where
  "nov3 = \<lparr>year = 2026, month = 11, day = 3\<rparr>"

definition nov4 :: date where
  "nov4 = \<lparr>year = 2026, month = 11, day = 4\<rparr>"


section \<open>Facts about the string helpers\<close>

declare str_nat.simps [simp del]

lemma str_nat_nonempty: "str_nat n \<noteq> []"
  by (subst str_nat.simps) simp

lemma length_str_nat_small: "n < 10 \<Longrightarrow> length (str_nat n) = 1"
  by (subst str_nat.simps) simp

lemma length_str_nat_big: "10 \<le> n \<Longrightarrow> 2 \<le> length (str_nat n)"
  using str_nat_nonempty [of "n div 10"]
  by (subst str_nat.simps) (cases "str_nat (n div 10)"; simp)

lemma length_str_nat_ge: "10 ^ k \<le> n \<Longrightarrow> k < length (str_nat n)"
proof (induction k arbitrary: n)
  case 0
  then show ?case using str_nat_nonempty [of n] by simp
next
  case (Suc k)
  then have "10 ^ k \<le> n div 10" by simp
  then have "k < length (str_nat (n div 10))" by (rule Suc.IH)
  moreover have "\<not> n < 10"
  proof
    assume "n < 10"
    moreover have "(10::nat) \<le> 10 ^ Suc k" by simp
    ultimately show False using Suc.prems by linarith
  qed
  ultimately show ?case by (subst str_nat.simps) simp
qed

lemma length_str_nat_lt100: "n < 100 \<Longrightarrow> length (str_nat n) \<le> 2"
  by (subst str_nat.simps) (auto simp: length_str_nat_small)

lemma digit_char_inj: "a < 10 \<Longrightarrow> b < 10 \<Longrightarrow> digit_char a = digit_char b \<Longrightarrow> a = b"
proof -
  have A: "a < 10 \<Longrightarrow> a \<in> {0,1,2,3,4,5,6,7,8,9}" for a :: nat by auto
  assume "a < 10" "b < 10" "digit_char a = digit_char b"
  then show ?thesis using A[of a] A[of b] by (auto simp: digit_char_def)
qed

lemma str_nat_inj: "str_nat a = str_nat b \<Longrightarrow> a = b"
proof (induction a arbitrary: b rule: str_nat.induct)
  case (1 a)
  show ?case
  proof (cases "a < 10")
    case True
    then have la: "length (str_nat a) = 1" by (rule length_str_nat_small)
    have "b < 10"
    proof (rule ccontr)
      assume "\<not> b < 10"
      then have "2 \<le> length (str_nat b)" by (simp add: length_str_nat_big)
      with la "1.prems" show False by simp
    qed
    with True "1.prems" show ?thesis
      by (simp add: str_nat.simps [of a] str_nat.simps [of b] digit_char_inj)
  next
    case False
    then have la: "2 \<le> length (str_nat a)" by (simp add: length_str_nat_big)
    have nb: "\<not> b < 10"
    proof
      assume "b < 10"
      then have "length (str_nat b) = 1" by (rule length_str_nat_small)
      with la "1.prems" show False by simp
    qed
    from False nb "1.prems"
    have eq: "str_nat (a div 10) @ [digit_char (a mod 10)]
              = str_nat (b div 10) @ [digit_char (b mod 10)]"
      by (simp add: str_nat.simps [of a] str_nat.simps [of b])
    then have "str_nat (a div 10) = str_nat (b div 10)"
      and d: "digit_char (a mod 10) = digit_char (b mod 10)" by simp_all
    then have "a div 10 = b div 10" using "1.IH" False by blast
    moreover have "a mod 10 = b mod 10" using d by (simp add: digit_char_inj)
    ultimately show ?thesis by (metis div_mult_mod_eq)
  qed
qed

lemma zfill_id: "w \<le> length s \<Longrightarrow> zfill w s = s"
  by (simp add: zfill_def)

lemma length_zfill: "length (zfill w s) = max w (length s)"
  by (auto simp: zfill_def split: list.splits)

lemma digit_char_not_sign: "d < 10 \<Longrightarrow> digit_char d \<noteq> CHR ''+'' \<and> digit_char d \<noteq> CHR ''-''"
proof -
  have A: "a < 10 \<Longrightarrow> a \<in> {0,1,2,3,4,5,6,7,8,9}" for a :: nat by auto
  assume "d < 10"
  then show ?thesis using A[of d] by (auto simp: digit_char_def)
qed

lemma zfill2_str_nat_inj:
  assumes "a < 100" "b < 100" "zfill 2 (str_nat a) = zfill 2 (str_nat b)"
  shows "a = b"
proof -
  have Z: "zfill 2 (str_nat n) = (if n < 10 then [CHR ''0'', digit_char n] else str_nat n)" for n
    using length_str_nat_big [of n]
    by (auto simp: zfill_def str_nat.simps [of n] digit_char_not_sign)
  have H: "n < 100 \<Longrightarrow> \<not> n < 10 \<Longrightarrow> str_nat n = [digit_char (n div 10), digit_char (n mod 10)]" for n
  proof -
    assume "n < 100" "\<not> n < 10"
    moreover from this have "n div 10 < 10" by arith
    ultimately show ?thesis
      by (simp add: str_nat.simps [of n] str_nat.simps [of "n div 10"])
  qed
  have Z2: "n < 100 \<Longrightarrow> zfill 2 (str_nat n) = [digit_char (n div 10), digit_char (n mod 10)]" for n
    by (simp add: Z H digit_char_def)
  from assms have "digit_char (a div 10) = digit_char (b div 10)"
    "digit_char (a mod 10) = digit_char (b mod 10)" by (simp_all add: Z2)
  then have "a div 10 = b div 10" "a mod 10 = b mod 10"
    using assms(1,2) by (auto intro: digit_char_inj)
  then show ?thesis by (metis div_mult_mod_eq)
qed

lemma strftime_iso_inj:
  assumes "calendar_date a" "calendar_date b" "strftime_iso a = strftime_iso b"
  shows "a = b"
proof -
  have Y: "calendar_date d \<Longrightarrow> zfill 4 (str_nat (year d)) = str_nat (year d)" for d
    using length_str_nat_ge [of 3 "year d"] by (simp add: calendar_date_def zfill_id)
  have L: "calendar_date d \<Longrightarrow> length (zfill 2 (str_nat (n))) = 2" if "n < 100" for d n
    using length_str_nat_lt100 [OF that] by (simp add: length_zfill max_def)
  let ?t = "\<lambda>d. ''-'' @ zfill 2 (str_nat (month d)) @ ''-'' @ zfill 2 (str_nat (day d))"
  have len: "length (?t a) = length (?t b)"
    using assms(1,2) L[of "month a" a] L[of "day a" a] L[of "month b" b] L[of "day b" b]
    by (simp add: calendar_date_def)
  have "str_nat (year a) @ ?t a = str_nat (year b) @ ?t b"
    using assms by (simp add: strftime_iso_def Y)
  with len have "str_nat (year a) = str_nat (year b) \<and> ?t a = ?t b"
    by (metis append_eq_append_conv)
  then have y: "str_nat (year a) = str_nat (year b)" and t: "?t a = ?t b"
    by blast+
  have lm: "length (zfill 2 (str_nat (month a))) = length (zfill 2 (str_nat (month b)))"
    using assms(1,2) L[of "month a" a] L[of "month b" b] by (simp add: calendar_date_def)
  from t lm have "zfill 2 (str_nat (month a)) = zfill 2 (str_nat (month b))"
    "zfill 2 (str_nat (day a)) = zfill 2 (str_nat (day b))" by simp_all
  then have "month a = month b" "day a = day b"
    using assms(1,2) by (auto simp: calendar_date_def intro!: zfill2_str_nat_inj)
  moreover have "year a = year b" using y by (rule str_nat_inj)
  ultimately show ?thesis by simp
qed

section \<open>The sequence allocator: daily sequences\<close>

lemma get_next_file_id_step:
  assumes "get_next_file_id e st = (i, st')" and "db_counter_ok e = primary"
  shows "stored_counter primary st' = Some (i, strftime_iso (today e))"
    and "i = (case stored_counter primary st of
                None \<Rightarrow> 1
              | Some (j, d) \<Rightarrow> if d = strftime_iso (today e) then j + 1 else 1)"
  using assms
  by (auto simp: get_next_file_id_def get_file_counter_def stored_counter_def Let_def
           split: option.splits if_splits)

lemma length_allocations: "length (allocations es st) = length es"
  by (induction es arbitrary: st) (auto split: prod.splits)

lemma allocations_consecutive:
  assumes "\<forall>e \<in> set es. db_counter_ok e = primary"
    and "\<forall>e \<in> set es. calendar_date (today e)"
    and "Suc k < length es"
  shows "allocations es st ! Suc k =
           (if today (es ! Suc k) = today (es ! k) then allocations es st ! k + 1 else 1)"
  using assms
proof (induction es arbitrary: st k)
  case Nil
  then show ?case by simp
next
  case (Cons e es)
  obtain i st' where step: "get_next_file_id e st = (i, st')" by (cases "get_next_file_id e st")
  from Cons.prems(3) obtain e' es' where es: "es = e' # es'" by (cases es) auto
  obtain i' st'' where step': "get_next_file_id e' st' = (i', st'')"
    by (cases "get_next_file_id e' st'")
  show ?case
  proof (cases k)
    case 0
    have pe: "db_counter_ok e = primary" and pe': "db_counter_ok e' = primary"
      using Cons.prems(1) es by auto
    have sc: "stored_counter primary st' = Some (i, strftime_iso (today e))"
      using get_next_file_id_step(1) [OF step pe] .
    have "i' = (if strftime_iso (today e) = strftime_iso (today e') then i + 1 else 1)"
      using get_next_file_id_step(2) [OF step' pe'] sc by simp
    moreover have "strftime_iso (today e) = strftime_iso (today e') \<longleftrightarrow> today e' = today e"
      using Cons.prems(2) es strftime_iso_inj [of "today e" "today e'"] by auto
    ultimately show ?thesis using 0 step step' es by simp
  next
    case (Suc k')
    have "allocations es st' ! Suc k' =
            (if today (es ! Suc k') = today (es ! k') then allocations es st' ! k' + 1 else 1)"
      using Cons.prems Suc by (intro Cons.IH) auto
    then show ?thesis using Suc step by simp
  qed
qed

lemma allocations_first:
  assumes "\<forall>e \<in> set es. db_counter_ok e = primary" and "es \<noteq> []"
    and "if primary then db_counter st = None else counter_file st = None"
  shows "hd (allocations es st) = 1"
proof -
  from assms(2) obtain e es' where es: "es = e # es'" by (cases es) auto
  obtain i st' where step: "get_next_file_id e st = (i, st')" by (cases "get_next_file_id e st")
  have "stored_counter primary st = None"
    using assms(3) by (auto simp: stored_counter_def split: if_splits)
  then have "i = 1" using get_next_file_id_step(2) [OF step, of primary] assms(1) es by simp
  then show ?thesis using es step by simp
qed

text \<open>
  Claim C8. In every run of allocator calls served by one backend (the database row or
  the counter file), on days that \<open>datetime.now()\<close> can report: the first call on a
  backend that holds no counter returns 1; a call on the same calendar day as the call
  before it returns that call's id plus 1; a call on another calendar day returns 1,
  whatever the id before was.
\<close>

theorem allocator_daily_sequence:
  assumes "\<forall>e \<in> set es. db_counter_ok e = primary \<and> calendar_date (today e)"
  shows "length (allocations es st) = length es
       \<and> ((if primary then db_counter st = None else counter_file st = None) \<longrightarrow> es \<noteq> []
            \<longrightarrow> allocations es st ! 0 = 1)
       \<and> (\<forall>k. Suc k < length es \<longrightarrow>
              allocations es st ! Suc k =
                (if today (es ! Suc k) = today (es ! k) then allocations es st ! k + 1 else 1))"
proof -
  have p: "\<forall>e \<in> set es. db_counter_ok e = primary" and c: "\<forall>e \<in> set es. calendar_date (today e)"
    using assms by auto
  have "allocations es st ! 0 = 1"
    if "if primary then db_counter st = None else counter_file st = None" and "es \<noteq> []"
    using allocations_first [OF p that(2) that(1)] that(2) length_allocations [of es st]
    by (cases "allocations es st") auto
  moreover have "allocations es st ! Suc k =
      (if today (es ! Suc k) = today (es ! k) then allocations es st ! k + 1 else 1)"
    if "Suc k < length es" for k
    using allocations_consecutive [OF p c that] .
  ultimately show ?thesis by (simp add: length_allocations)
qed

theorem allocator_daily_sequence_witness:
  "allocations [env_on nov3 True, env_on nov3 True, env_on nov3 True, env_on nov4 True] st_empty
       = [1, 2, 3, 1]
   \<and> allocations [env_on nov3 False, env_on nov3 False, env_on nov4 False]
        (st_empty\<lparr>counter_file :=
           Some \<lparr>json_last_id = Some 41, json_last_date = Some ''2026-11-03''\<rparr>\<rparr>)
       = [42, 43, 1]"
proof -
  let ?es = "[env_on nov3 True, env_on nov3 True, env_on nov3 True, env_on nov4 True]"
  let ?fs = "[env_on nov3 False, env_on nov3 False, env_on nov4 False]"
  let ?st = "st_empty\<lparr>counter_file :=
           Some \<lparr>json_last_id = Some 41, json_last_date = Some ''2026-11-03''\<rparr>\<rparr>"
  have h1: "\<forall>e \<in> set ?es. db_counter_ok e = True \<and> calendar_date (today e)"
    by (simp add: env_on_def nov3_def nov4_def calendar_date_def)
  have h2: "\<forall>e \<in> set ?fs. db_counter_ok e = False \<and> calendar_date (today e)"
    by (simp add: env_on_def nov3_def nov4_def calendar_date_def)
  note c1 = allocator_daily_sequence [OF h1, of st_empty]
  note c2 = allocator_daily_sequence [OF h2, of ?st]
  have r1: "allocations ?es st_empty = [1, 2, 3, 1]"
    by (simp add: get_next_file_id_def get_file_counter_def env_on_def nov3_def nov4_def
        st_empty_def strftime_iso_def zfill_def str_nat.simps digit_char_def Let_def)
  have r2: "allocations ?fs ?st = [42, 43, 1]"
    by (simp add: get_next_file_id_def get_file_counter_def env_on_def nov3_def nov4_def
        st_empty_def strftime_iso_def zfill_def str_nat.simps digit_char_def Let_def)
  from c1 c2 r1 r2 show ?thesis by blast
qed

section \<open>Dictionaries and the steps of the row loop\<close>

lemma lookup_update [simp]: "lookup (AList.update k v d) k' = (if k' = k then Some v else lookup d k')"
  by (simp add: lookup_def update_conv')

lemma lookup_delete [simp]: "lookup (AList.delete k d) k' = (if k' = k then None else lookup d k')"
  by (simp add: lookup_def delete_conv')

lemma get_update [simp]: "get (AList.update k v d) k' dflt = (if k' = k then v else get d k' dflt)"
  by (simp add: get_def)

lemma map_of_fold_update:
  "map_of (fold (\<lambda>kv. AList.update (fst kv) (snd kv)) b a) = map_of a ++ map_of (rev b)"
proof (induction b arbitrary: a)
  case Nil
  then show ?case by simp
next
  case (Cons kv b)
  have "map_of (fold (\<lambda>kv. AList.update (fst kv) (snd kv)) (kv # b) a)
        = map_of (AList.update (fst kv) (snd kv) a) ++ map_of (rev b)"
    by (simp add: Cons.IH)
  also have "\<dots> = (map_of a ++ [fst kv \<mapsto> snd kv]) ++ map_of (rev b)"
    by (simp add: update_conv')
  also have "\<dots> = map_of a ++ ([fst kv \<mapsto> snd kv] ++ map_of (rev b))"
    by (rule map_add_assoc [symmetric])
  also have "[fst kv \<mapsto> snd kv] ++ map_of (rev b) = map_of (rev (kv # b))"
    by (cases kv) simp
  finally show ?case .
qed

lemma distinct_fold_update:
  "distinct (map fst a) \<Longrightarrow> distinct (map fst (fold (\<lambda>kv. AList.update (fst kv) (snd kv)) b a))"
  by (induction b arbitrary: a) (simp_all add: distinct_update)

lemma map_of_rev_distinct: "distinct (map fst d) \<Longrightarrow> map_of (rev d) = map_of d"
  by (rule map_of_inject_set [THEN iffD2]) (simp_all add: distinct_rev rev_map [symmetric])

lemma lookup_py_merge:
  "distinct (map fst b) \<Longrightarrow>
   lookup (py_merge a b) k = (case lookup b k of None \<Rightarrow> lookup a k | Some v \<Rightarrow> Some v)"
  unfolding lookup_def py_merge_def
  by (simp add: map_of_fold_update map_of_rev_distinct map_add_def)

lemma lookup_py_dict: "lookup (py_dict ps) = map_of (rev ps)"
  by (rule ext) (simp add: lookup_def py_dict_def map_of_fold_update)

lemma lookup_strip_values: "lookup (strip_values d) k = map_option strip (lookup d k)"
  by (induction d) (auto simp: lookup_def strip_values_def)

lemma distinct_py_dict [simp]: "distinct (map fst (py_dict ps))"
  by (simp add: py_dict_def distinct_fold_update)

lemma map_fst_strip_values [simp]: "map fst (strip_values d) = map fst d"
  by (simp add: strip_values_def comp_def)

text \<open>Every step of the row loop changes one key and keeps the keys distinct.\<close>

lemma normalize_dt_other: "normalize_dt L d = Inr d' \<Longrightarrow> k \<noteq> ''Dt'' \<Longrightarrow> lookup d' k = lookup d k"
  by (auto simp: normalize_dt_def split: option.splits if_splits)

lemma normalize_dt_distinct:
  "normalize_dt L d = Inr d' \<Longrightarrow> distinct (map fst d) \<Longrightarrow> distinct (map fst d')"
  by (auto simp: normalize_dt_def distinct_update split: option.splits if_splits)

lemma format_qty_other: "format_qty L d = Inr d' \<Longrightarrow> k \<noteq> ''Qty'' \<Longrightarrow> lookup d' k = lookup d k"
  by (auto simp: format_qty_def Let_def split: option.splits if_splits)

lemma format_qty_distinct:
  "format_qty L d = Inr d' \<Longrightarrow> distinct (map fst d) \<Longrightarrow> distinct (map fst d')"
  by (auto simp: format_qty_def Let_def distinct_update split: option.splits if_splits)

lemma format_conamt_other:
  "format_conamt L d = Inr d' \<Longrightarrow> k \<noteq> ''Conamt'' \<Longrightarrow> lookup d' k = lookup d k"
  by (auto simp: format_conamt_def Let_def split: option.splits if_splits)

lemma format_conamt_distinct:
  "format_conamt L d = Inr d' \<Longrightarrow> distinct (map fst d) \<Longrightarrow> distinct (map fst d')"
  by (auto simp: format_conamt_def Let_def distinct_update split: option.splits if_splits)

lemma pad_chqrefno_other: "k \<noteq> ''Chqrefno'' \<Longrightarrow> lookup (pad_chqrefno d) k = lookup d k"
  by (simp add: pad_chqrefno_def Let_def)

lemma pad_chqrefno_distinct: "distinct (map fst d) \<Longrightarrow> distinct (map fst (pad_chqrefno d))"
  by (simp add: pad_chqrefno_def Let_def distinct_update)

lemma split_ctrpty_distinct:
  "distinct (map fst d) \<Longrightarrow> distinct (map fst (split_ctrpty b c d))"
  by (simp add: split_ctrpty_def distinct_update distinct_delete)

lemma format_qty_errors: "format_qty L d = Inl r \<Longrightarrow> \<exists>v. r = InvalidQty v"
  by (auto simp: format_qty_def Let_def split: option.splits if_splits)

lemma format_conamt_errors: "format_conamt L d = Inl r \<Longrightarrow> \<exists>v. r = InvalidConamt v"
  by (auto simp: format_conamt_def Let_def split: option.splits if_splits)

lemma normalize_dt_errors: "normalize_dt L d = Inl r \<Longrightarrow> \<exists>v. r = InvalidDt v"
  by (auto simp: normalize_dt_def split: option.splits if_splits)

lemma map_of_tag_fields:
  "map_of (tag_fields order m) k = (if k \<in> set order then Some (get m k '''') else None)"
  by (induction order) (auto simp: tag_fields_def)

lemma map_fst_tag_fields: "map fst (tag_fields order m) = order"
  by (simp add: tag_fields_def comp_def)

text \<open>What a row that encodes went through.\<close>

lemma row_fields_InrD:
  assumes "row_fields L headers row = Inr tags"
  defines "rd \<equiv> strip_values (py_dict (zip headers row))"
  defines "ctr \<equiv> get rd ''CtrPty'' ''''"
  defines "nsdl \<equiv> startswith ctr ''IN''"
  shows "\<exists>d1 d4 d5.
           normalize_dt L rd = Inr d1
         \<and> length ctr = 16
         \<and> format_qty L (split_ctrpty nsdl ctr (AList.update ''Xferdt'' (get d1 ''Dt'' '''') d1)) = Inr d4
         \<and> format_conamt L d4 = Inr d5
         \<and> distinct (map fst d5)
         \<and> tags = tag_fields (if nsdl then RAW_ORDER_NSDL else RAW_ORDER_CDSL)
                     (AList.update ''Tp'' (if nsdl then ''4'' else ''5'')
                        (py_merge CONSTANT_FIELDS (pad_chqrefno d5)))"
proof -
  from assms(1) obtain d1 where d1: "normalize_dt L rd = Inr d1"
    by (auto simp: row_fields_def rd_def split: sum.splits)
  have dd1: "distinct (map fst d1)"
    using normalize_dt_distinct [OF d1] by (simp add: rd_def)
  have c: "get (AList.update ''Xferdt'' (get d1 ''Dt'' '''') d1) ''CtrPty'' '''' = ctr"
    using normalize_dt_other [OF d1, of "''CtrPty''"] by (simp add: get_def ctr_def)
  let ?d3 = "split_ctrpty nsdl ctr (AList.update ''Xferdt'' (get d1 ''Dt'' '''') d1)"
  from assms(1) d1 c obtain d4 d5 where
    *: "length ctr = 16" "format_qty L ?d3 = Inr d4" "format_conamt L d4 = Inr d5"
       "tags = tag_fields (if nsdl then RAW_ORDER_NSDL else RAW_ORDER_CDSL)
                     (AList.update ''Tp'' (if nsdl then ''4'' else ''5'')
                        (py_merge CONSTANT_FIELDS (pad_chqrefno d5)))"
    unfolding row_fields_def rd_def [symmetric]
    by (auto simp: Let_def nsdl_def split: sum.splits if_splits)
  have "distinct (map fst ?d3)"
    using dd1 by (simp add: split_ctrpty_distinct distinct_update)
  then have "distinct (map fst d5)"
    using *(2,3) format_qty_distinct format_conamt_distinct by blast
  with d1 * show ?thesis by blast
qed

text \<open>The value of a tag that the numeric and reference steps do not touch.\<close>

lemma row_fields_value:
  assumes "row_fields L headers row = Inr tags"
    and "k \<notin> {''Tp'', ''Qty'', ''Conamt'', ''Chqrefno'', ''Dt'', ''Xferdt''}"
  defines "rd \<equiv> strip_values (py_dict (zip headers row))"
  defines "ctr \<equiv> get rd ''CtrPty'' ''''"
  shows "map_of tags k =
           (if k \<in> set (if startswith ctr ''IN'' then RAW_ORDER_NSDL else RAW_ORDER_CDSL)
            then Some (case lookup (split_ctrpty (startswith ctr ''IN'') ctr rd) k of
                         None \<Rightarrow> get CONSTANT_FIELDS k ''''
                       | Some v \<Rightarrow> v)
            else None)"
proof -
  from row_fields_InrD [OF assms(1)] obtain d1 d4 d5 where
    d1: "normalize_dt L rd = Inr d1"
    and d4: "format_qty L (split_ctrpty (startswith ctr ''IN'') ctr
                (AList.update ''Xferdt'' (get d1 ''Dt'' '''') d1)) = Inr d4"
    and d5: "format_conamt L d4 = Inr d5" and dist: "distinct (map fst d5)"
    and tags: "tags = tag_fields (if startswith ctr ''IN'' then RAW_ORDER_NSDL else RAW_ORDER_CDSL)
                     (AList.update ''Tp'' (if startswith ctr ''IN'' then ''4'' else ''5'')
                        (py_merge CONSTANT_FIELDS (pad_chqrefno d5)))"
    unfolding rd_def ctr_def by blast
  have k: "k \<noteq> ''Tp''" "k \<noteq> ''Qty''" "k \<noteq> ''Conamt''" "k \<noteq> ''Chqrefno''" "k \<noteq> ''Dt''"
    "k \<noteq> ''Xferdt''" using assms(2) by auto
  have "lookup (pad_chqrefno d5) k = lookup d4 k"
    using format_conamt_other [OF d5 k(3)] pad_chqrefno_other [OF k(4)] by simp
  also have "\<dots> = lookup (split_ctrpty (startswith ctr ''IN'') ctr
                (AList.update ''Xferdt'' (get d1 ''Dt'' '''') d1)) k"
    using format_qty_other [OF d4 k(2)] .
  also have "\<dots> = lookup (split_ctrpty (startswith ctr ''IN'') ctr rd) k"
    using normalize_dt_other [OF d1 k(5)] k(6) by (simp add: split_ctrpty_def)
  finally have l: "lookup (pad_chqrefno d5) k
      = lookup (split_ctrpty (startswith ctr ''IN'') ctr rd) k" .
  have "get (AList.update ''Tp'' (if startswith ctr ''IN'' then ''4'' else ''5'')
              (py_merge CONSTANT_FIELDS (pad_chqrefno d5))) k ''''
        = (case lookup (split_ctrpty (startswith ctr ''IN'') ctr rd) k of
             None \<Rightarrow> get CONSTANT_FIELDS k '''' | Some v \<Rightarrow> v)"
    using k(1) l pad_chqrefno_distinct [OF dist]
    by (simp add: get_def lookup_py_merge split: option.splits)
  then show ?thesis unfolding tags by (simp only: map_of_tag_fields)
qed

section \<open>Evaluating the library models\<close>

lemma replicate_num: "replicate (numeral k) x = x # replicate (pred_numeral k) x"
  by (simp add: numeral_eq_Suc)

lemmas date_defs = dayfirst_numeric_def valid_dmy_def strip_def py_isspace_def is_digit_def nat_of_digits_def days_in_month_def
      strftime_dmy_def zfill_def digit_char_def Let_def

lemmas float_defs = float_fixed_py_def py_float_def strip_def py_isspace_def is_digit_def
      parse_decimal_def nat_of_digits_def to_double_def scaled_def round_half_even_def
      format_fixed_def to_lower_def zfill_def digit_char_def Let_def

lemmas row_defs = row_fields_def normalize_dt_def strip_values_def py_dict_def get_def lookup_def
      split_ctrpty_def startswith_def format_qty_def format_conamt_def pad_chqrefno_def
      replace_commas_def tag_fields_def CONSTANT_FIELDS_def Bnfcry_def RAW_ORDER_NSDL_def
      RAW_ORDER_CDSL_def strip_def py_isspace_def zfill_def py_merge_def Let_def

lemma dayfirst_01012025: "dayfirst_numeric ''01/01/2025'' = Some ''01012025''"
  unfolding date_defs by (simp add: str_nat.simps replicate_num digit_char_def zfill_def)

lemma float3_100: "float_fixed_py 3 ''100'' = Some ''100.000''"
  unfolding float_defs by (simp add: str_nat.simps replicate_num digit_char_def zfill_def)

lemma float2_500_5: "float_fixed_py 2 ''500.5'' = Some ''500.50''"
  unfolding float_defs by (simp add: str_nat.simps replicate_num digit_char_def zfill_def)

lemma row_nsdl_example:
  "row_fields py_libs [''Dt'', ''CtrPty'', ''Qty'', ''Conamt'', ''Chqrefno'']
      [''01/01/2025'', ''INXXXXXXXXXXXXXX'', ''100'', ''500.5'', ''7'']
   = Inr [(''Tp'', ''4''), (''Dt'', ''01012025''), (''Bnfcry'', ''1207650000865934''),
          (''ISIN'', ''''), (''Qty'', ''100.000''), (''Flg'', ''S''), (''Trf'', ''X''),
          (''Clnt'', ''XXXXXXXX''), (''Brkr'', ''INXXXXXX''), (''Rsn'', ''2''),
          (''Conamt'', ''500.50''), (''Paymod'', ''2''), (''Bnkno'', ''''), (''Bnkname'', ''''),
          (''Brnchname'', ''''), (''Xferdt'', ''01012025''), (''Chqrefno'', ''00000007'')]"
  unfolding row_defs py_libs_def
  by (simp add: dayfirst_01012025 float3_100 float2_500_5 replicate_num
        del: lookup_update lookup_delete get_update)

section \<open>The tags of an encoded row\<close>

lemma render_line_contains:
  assumes "map_of tags k = Some v"
  shows "\<exists>pre post. render_line tags = pre @ ''<'' @ k @ ''>'' @ v @ ''</'' @ k @ ''>'' @ post"
proof -
  from assms have "(k, v) \<in> set tags" by (rule map_of_SomeD)
  then obtain a b where "tags = a @ (k, v) # b" by (auto dest: split_list)
  then have "render_line tags
      = render_line a @ ''<'' @ k @ ''>'' @ v @ ''</'' @ k @ ''>'' @ render_line b"
    by (simp add: render_line_def render_tag_def)
  then show ?thesis by blast
qed

lemma encode_row_Inr: "row_fields L headers row = Inr tags \<Longrightarrow>
    encode_row L headers row = Inr (render_line tags)"
  by (simp add: encode_row_def)

lemma encode_row_Inl: "encode_row L headers row = Inl r \<longleftrightarrow> row_fields L headers row = Inl r"
  by (cases "row_fields L headers row") (simp_all add: encode_row_def)

lemma row_fields_Tp:
  assumes "row_fields L headers row = Inr tags"
  shows "map_of tags ''Tp'' =
     Some (if startswith (get (strip_values (py_dict (zip headers row))) ''CtrPty'' '''') ''IN''
           then ''4'' else ''5'')"
proof -
  from row_fields_InrD [OF assms] obtain d5 where
    "tags = tag_fields
       (if startswith (get (strip_values (py_dict (zip headers row))) ''CtrPty'' '''') ''IN''
        then RAW_ORDER_NSDL else RAW_ORDER_CDSL)
       (AList.update ''Tp''
         (if startswith (get (strip_values (py_dict (zip headers row))) ''CtrPty'' '''') ''IN''
          then ''4'' else ''5'')
         (py_merge CONSTANT_FIELDS (pad_chqrefno d5)))"
    by blast
  then show ?thesis
    by (simp add: map_of_tag_fields RAW_ORDER_NSDL_def RAW_ORDER_CDSL_def)
qed

lemma row_fields_order:
  assumes "row_fields L headers row = Inr tags"
  shows "map fst tags =
     (if startswith (get (strip_values (py_dict (zip headers row))) ''CtrPty'' '''') ''IN''
      then RAW_ORDER_NSDL else RAW_ORDER_CDSL)"
  using row_fields_InrD [OF assms] by (auto simp: map_fst_tag_fields)

lemma row_fields_ctrpty_tags:
  assumes "row_fields L headers row = Inr tags"
  defines "ctr \<equiv> get (strip_values (py_dict (zip headers row))) ''CtrPty'' ''''"
  shows "startswith ctr ''IN'' \<Longrightarrow> map_of tags ''Brkr'' = Some (take 8 ctr)"
    and "startswith ctr ''IN'' \<Longrightarrow> map_of tags ''Clnt'' = Some (drop 8 ctr)"
    and "startswith ctr ''IN'' \<Longrightarrow> map_of tags ''CtrPty'' = None"
    and "\<not> startswith ctr ''IN'' \<Longrightarrow> map_of tags ''CtrPty'' = Some ctr"
    and "\<not> startswith ctr ''IN'' \<Longrightarrow> map_of tags ''Brkr'' = None"
    and "\<not> startswith ctr ''IN'' \<Longrightarrow> map_of tags ''Clnt'' = None"
  using row_fields_value [OF assms(1), of "''Brkr''"]
        row_fields_value [OF assms(1), of "''Clnt''"]
        row_fields_value [OF assms(1), of "''CtrPty''"]
  by (simp_all add: ctr_def split_ctrpty_def RAW_ORDER_NSDL_def RAW_ORDER_CDSL_def)

section \<open>Classification and the counter-party identifier\<close>

text \<open>
  Claim C6. A row that encodes has a 16-character counter-party identifier (the trimmed
  \<open>CtrPty\<close> cell). If it starts with \<open>IN\<close>, the line is rendered from the
  Depository-A template: the tag \<open>Brkr\<close> holds its first 8 characters, the tag
  \<open>Clnt\<close> its last 8, both appear in the rendered line, and no tag \<open>CtrPty\<close> is
  emitted. Otherwise the line is rendered from the Depository-B template: the tag
  \<open>CtrPty\<close> holds the whole identifier and no tag \<open>Brkr\<close> or \<open>Clnt\<close> is emitted,
  whatever the upstream row held under those names. The tags of a line are the pairs of
  \<open>tags\<close>; the line is their rendering.
\<close>

theorem depository_tag_sets:
  assumes "row_fields L headers row = Inr tags"
  defines "ctr \<equiv> get (strip_values (py_dict (zip headers row))) ''CtrPty'' ''''"
  shows "length ctr = 16
       \<and> encode_row L headers row = Inr (render_line tags)
       \<and> (startswith ctr ''IN'' \<longrightarrow>
             map fst tags = RAW_ORDER_NSDL
           \<and> map_of tags ''Brkr'' = Some (take 8 ctr)
           \<and> map_of tags ''Clnt'' = Some (drop 8 ctr)
           \<and> map_of tags ''CtrPty'' = None
           \<and> ''CtrPty'' \<notin> set (map fst tags)
           \<and> (\<exists>pre post. render_line tags = pre @ ''<Brkr>'' @ take 8 ctr @ ''</Brkr>'' @ post)
           \<and> (\<exists>pre post. render_line tags = pre @ ''<Clnt>'' @ drop 8 ctr @ ''</Clnt>'' @ post))
       \<and> (\<not> startswith ctr ''IN'' \<longrightarrow>
             map fst tags = RAW_ORDER_CDSL
           \<and> map_of tags ''CtrPty'' = Some ctr
           \<and> map_of tags ''Brkr'' = None \<and> map_of tags ''Clnt'' = None
           \<and> ''Brkr'' \<notin> set (map fst tags) \<and> ''Clnt'' \<notin> set (map fst tags)
           \<and> (\<exists>pre post. render_line tags = pre @ ''<CtrPty>'' @ ctr @ ''</CtrPty>'' @ post))"
proof -
  have len: "length ctr = 16"
    using row_fields_InrD [OF assms(1)] unfolding ctr_def by blast
  have enc: "encode_row L headers row = Inr (render_line tags)"
    using assms(1) by (rule encode_row_Inr)
  have ord: "map fst tags = (if startswith ctr ''IN'' then RAW_ORDER_NSDL else RAW_ORDER_CDSL)"
    using row_fields_order [OF assms(1)] unfolding ctr_def .
  note t = row_fields_ctrpty_tags [OF assms(1), folded ctr_def]
  have nsdl: "map fst tags = RAW_ORDER_NSDL
           \<and> map_of tags ''Brkr'' = Some (take 8 ctr)
           \<and> map_of tags ''Clnt'' = Some (drop 8 ctr)
           \<and> map_of tags ''CtrPty'' = None
           \<and> ''CtrPty'' \<notin> set (map fst tags)
           \<and> (\<exists>pre post. render_line tags = pre @ ''<Brkr>'' @ take 8 ctr @ ''</Brkr>'' @ post)
           \<and> (\<exists>pre post. render_line tags = pre @ ''<Clnt>'' @ drop 8 ctr @ ''</Clnt>'' @ post)"
    if s: "startswith ctr ''IN''"
    using ord s t(1) [OF s] t(2) [OF s] t(3) [OF s]
      render_line_contains [OF t(1) [OF s]] render_line_contains [OF t(2) [OF s]]
    by (simp add: RAW_ORDER_NSDL_def)
  have cdsl: "map fst tags = RAW_ORDER_CDSL
           \<and> map_of tags ''CtrPty'' = Some ctr
           \<and> map_of tags ''Brkr'' = None \<and> map_of tags ''Clnt'' = None
           \<and> ''Brkr'' \<notin> set (map fst tags) \<and> ''Clnt'' \<notin> set (map fst tags)
           \<and> (\<exists>pre post. render_line tags = pre @ ''<CtrPty>'' @ ctr @ ''</CtrPty>'' @ post)"
    if s: "\<not> startswith ctr ''IN''"
    using ord s t(4) [OF s] t(5) [OF s] t(6) [OF s] render_line_contains [OF t(4) [OF s]]
    by (simp add: RAW_ORDER_CDSL_def)
  from len enc nsdl cdsl show ?thesis by blast
qed

text \<open>
  Claim C10. The type code of an encoded row is \<open>4\<close> exactly when the first two
  characters of the identifier are the upper-case letters \<open>IN\<close>, and \<open>5\<close> otherwise;
  an identifier that starts with lower-case \<open>in\<close>, or with anything else, is rendered
  from the Depository-B template with the identifier kept whole. The two codes differ.
\<close>

theorem type_code_by_prefix:
  assumes "row_fields L headers row = Inr tags"
  defines "ctr \<equiv> get (strip_values (py_dict (zip headers row))) ''CtrPty'' ''''"
  shows "map_of tags ''Tp'' = Some (if take 2 ctr = ''IN'' then ''4'' else ''5'')
       \<and> (take 2 ctr \<noteq> ''IN'' \<longrightarrow>
             map fst tags = RAW_ORDER_CDSL \<and> map_of tags ''CtrPty'' = Some ctr)
       \<and> (take 2 ctr = ''in'' \<longrightarrow>
             map_of tags ''Tp'' = Some ''5'' \<and> map fst tags = RAW_ORDER_CDSL
           \<and> map_of tags ''CtrPty'' = Some ctr)
       \<and> (take 2 ctr = ''IN'' \<longrightarrow>
             map_of tags ''Tp'' = Some ''4'' \<and> map fst tags = RAW_ORDER_NSDL)
       \<and> ''4'' \<noteq> ''5''"
proof -
  have s: "startswith ctr ''IN'' \<longleftrightarrow> take 2 ctr = ''IN''"
    by (simp add: startswith_def numeral_2_eq_2)
  have tp: "map_of tags ''Tp'' = Some (if take 2 ctr = ''IN'' then ''4'' else ''5'')"
    using row_fields_Tp [OF assms(1)] s unfolding ctr_def by simp
  have ord: "map fst tags = (if take 2 ctr = ''IN'' then RAW_ORDER_NSDL else RAW_ORDER_CDSL)"
    using row_fields_order [OF assms(1)] s unfolding ctr_def by simp
  have whole: "map_of tags ''CtrPty'' = Some ctr" if "take 2 ctr \<noteq> ''IN''"
    using row_fields_ctrpty_tags(4) [OF assms(1)] s that unfolding ctr_def by simp
  have "take 2 ctr = ''in'' \<Longrightarrow> take 2 ctr \<noteq> ''IN''" by simp
  with tp ord whole show ?thesis by auto
qed

lemma encode_row_invalid_ctrpty:
  assumes "normalize_dt L (strip_values (py_dict (zip headers row))) = Inr d1"
  defines "ctr \<equiv> get (strip_values (py_dict (zip headers row))) ''CtrPty'' ''''"
  shows "((\<exists>v. encode_row L headers row = Inl (InvalidCtrPty v)) \<longleftrightarrow> ctr = [] \<or> length ctr \<noteq> 16)
       \<and> (\<forall>v. encode_row L headers row = Inl (InvalidCtrPty v) \<longrightarrow> v = ctr)
       \<and> (length ctr = 15 \<or> length ctr = 17 \<longrightarrow> encode_row L headers row = Inl (InvalidCtrPty ctr))"
proof -
  have c: "get (AList.update ''Xferdt'' (get d1 ''Dt'' '''') d1) ''CtrPty'' '''' = ctr"
    using normalize_dt_other [OF assms(1), of "''CtrPty''"] by (simp add: get_def ctr_def)
  have bad: "row_fields L headers row = Inl (InvalidCtrPty ctr)" if "ctr = [] \<or> length ctr \<noteq> 16"
    using that assms(1) c by (auto simp: row_fields_def Let_def)
  have good: "row_fields L headers row \<noteq> Inl (InvalidCtrPty v)" if "\<not> (ctr = [] \<or> length ctr \<noteq> 16)" for v
    using that assms(1) c
    by (auto simp: row_fields_def Let_def split: sum.splits
             dest!: format_qty_errors format_conamt_errors)
  have iff: "(\<exists>v. row_fields L headers row = Inl (InvalidCtrPty v)) \<longleftrightarrow> ctr = [] \<or> length ctr \<noteq> 16"
    using bad good by blast
  have val: "v = ctr" if "row_fields L headers row = Inl (InvalidCtrPty v)" for v
  proof -
    from that good have "ctr = [] \<or> length ctr \<noteq> 16" by blast
    from bad [OF this] that show ?thesis by simp
  qed
  have part: "row_fields L headers row = Inl (InvalidCtrPty ctr)" if "length ctr = 15 \<or> length ctr = 17"
    using that by (intro bad) auto
  from iff val part show ?thesis
    unfolding encode_row_Inl by blast
qed

lemma row_cdsl_example:
  "row_fields py_libs [''Dt'', ''CtrPty'', ''Brkr'', ''Clnt'']
      [''01/01/2025'', ''in34567890123456'', ''OLDBRKR'', ''OLDCLNT'']
   = Inr [(''Tp'', ''5''), (''Dt'', ''01012025''), (''Bnfcry'', ''1207650000865934''),
          (''CtrPty'', ''in34567890123456''), (''ISIN'', ''''), (''Qty'', ''''), (''Flg'', ''S''),
          (''Trf'', ''X''), (''Rsn'', ''2''), (''Conamt'', ''''), (''Paymod'', ''2''),
          (''Bnkno'', ''''), (''Bnkname'', ''''), (''Brnchname'', ''''),
          (''Xferdt'', ''01012025''), (''Chqrefno'', ''00000000'')]"
  unfolding row_defs py_libs_def
  by (simp add: dayfirst_01012025 replicate_num del: lookup_update lookup_delete get_update)

lemma ctr_nsdl_example:
  "get (strip_values (py_dict (zip [''Dt'', ''CtrPty'', ''Qty'', ''Conamt'', ''Chqrefno'']
      [''01/01/2025'', ''INXXXXXXXXXXXXXX'', ''100'', ''500.5'', ''7'']))) ''CtrPty'' ''''
   = ''INXXXXXXXXXXXXXX''"
  unfolding get_def lookup_def strip_values_def py_dict_def strip_def py_isspace_def
  by simp

lemma ctr_cdsl_example:
  "get (strip_values (py_dict (zip [''Dt'', ''CtrPty'', ''Brkr'', ''Clnt'']
      [''01/01/2025'', ''in34567890123456'', ''OLDBRKR'', ''OLDCLNT'']))) ''CtrPty'' ''''
   = ''in34567890123456''"
  unfolding get_def lookup_def strip_values_def py_dict_def strip_def py_isspace_def
  by simp

theorem depository_tag_sets_witness:
  "encode_row py_libs [''Dt'', ''CtrPty'', ''Qty'', ''Conamt'', ''Chqrefno'']
      [''01/01/2025'', ''INXXXXXXXXXXXXXX'', ''100'', ''500.5'', ''7'']
   = Inr (''<Tp>4</Tp><Dt>01012025</Dt><Bnfcry>1207650000865934</Bnfcry><ISIN></ISIN>''
        @ ''<Qty>100.000</Qty><Flg>S</Flg><Trf>X</Trf><Clnt>XXXXXXXX</Clnt><Brkr>INXXXXXX</Brkr>''
        @ ''<Rsn>2</Rsn><Conamt>500.50</Conamt><Paymod>2</Paymod><Bnkno></Bnkno>''
        @ ''<Bnkname></Bnkname><Brnchname></Brnchname><Xferdt>01012025</Xferdt>''
        @ ''<Chqrefno>00000007</Chqrefno>'')
   \<and> encode_row py_libs [''Dt'', ''CtrPty'', ''Brkr'', ''Clnt'']
      [''01/01/2025'', ''in34567890123456'', ''OLDBRKR'', ''OLDCLNT'']
   = Inr (''<Tp>5</Tp><Dt>01012025</Dt><Bnfcry>1207650000865934</Bnfcry>''
        @ ''<CtrPty>in34567890123456</CtrPty><ISIN></ISIN><Qty></Qty><Flg>S</Flg><Trf>X</Trf>''
        @ ''<Rsn>2</Rsn><Conamt></Conamt><Paymod>2</Paymod><Bnkno></Bnkno><Bnkname></Bnkname>''
        @ ''<Brnchname></Brnchname><Xferdt>01012025</Xferdt><Chqrefno>00000000</Chqrefno>'')"
proof -
  note a = depository_tag_sets [OF row_nsdl_example, unfolded ctr_nsdl_example]
  note b = depository_tag_sets [OF row_cdsl_example, unfolded ctr_cdsl_example]
  from a have "encode_row py_libs [''Dt'', ''CtrPty'', ''Qty'', ''Conamt'', ''Chqrefno'']
      [''01/01/2025'', ''INXXXXXXXXXXXXXX'', ''100'', ''500.5'', ''7'']
     = Inr (render_line [(''Tp'', ''4''), (''Dt'', ''01012025''), (''Bnfcry'', ''1207650000865934''),
          (''ISIN'', ''''), (''Qty'', ''100.000''), (''Flg'', ''S''), (''Trf'', ''X''),
          (''Clnt'', ''XXXXXXXX''), (''Brkr'', ''INXXXXXX''), (''Rsn'', ''2''),
          (''Conamt'', ''500.50''), (''Paymod'', ''2''), (''Bnkno'', ''''), (''Bnkname'', ''''),
          (''Brnchname'', ''''), (''Xferdt'', ''01012025''), (''Chqrefno'', ''00000007'')])"
    by (rule conjunct2 [THEN conjunct1])
  moreover from b have "encode_row py_libs [''Dt'', ''CtrPty'', ''Brkr'', ''Clnt'']
      [''01/01/2025'', ''in34567890123456'', ''OLDBRKR'', ''OLDCLNT'']
     = Inr (render_line [(''Tp'', ''5''), (''Dt'', ''01012025''), (''Bnfcry'', ''1207650000865934''),
          (''CtrPty'', ''in34567890123456''), (''ISIN'', ''''), (''Qty'', ''''), (''Flg'', ''S''),
          (''Trf'', ''X''), (''Rsn'', ''2''), (''Conamt'', ''''), (''Paymod'', ''2''),
          (''Bnkno'', ''''), (''Bnkname'', ''''), (''Brnchname'', ''''),
          (''Xferdt'', ''01012025''), (''Chqrefno'', ''00000000'')])"
    by (rule conjunct2 [THEN conjunct1])
  ultimately show ?thesis
    by (simp add: render_line_def render_tag_def)
qed

theorem type_code_by_prefix_witness:
  "map_of [(''Tp'', ''5''), (''Dt'', ''01012025''), (''Bnfcry'', ''1207650000865934''),
          (''CtrPty'', ''in34567890123456''), (''ISIN'', ''''), (''Qty'', ''''), (''Flg'', ''S''),
          (''Trf'', ''X''), (''Rsn'', ''2''), (''Conamt'', ''''), (''Paymod'', ''2''),
          (''Bnkno'', ''''), (''Bnkname'', ''''), (''Brnchname'', ''''),
          (''Xferdt'', ''01012025''), (''Chqrefno'', ''00000000'')] ''Tp'' = Some ''5''
   \<and> row_fields py_libs [''Dt'', ''CtrPty'', ''Brkr'', ''Clnt'']
      [''01/01/2025'', ''in34567890123456'', ''OLDBRKR'', ''OLDCLNT'']
     = Inr [(''Tp'', ''5''), (''Dt'', ''01012025''), (''Bnfcry'', ''1207650000865934''),
          (''CtrPty'', ''in34567890123456''), (''ISIN'', ''''), (''Qty'', ''''), (''Flg'', ''S''),
          (''Trf'', ''X''), (''Rsn'', ''2''), (''Conamt'', ''''), (''Paymod'', ''2''),
          (''Bnkno'', ''''), (''Bnkname'', ''''), (''Brnchname'', ''''),
          (''Xferdt'', ''01012025''), (''Chqrefno'', ''00000000'')]
   \<and> map_of [(''Tp'', ''4''), (''Dt'', ''01012025''), (''Bnfcry'', ''1207650000865934''),
          (''ISIN'', ''''), (''Qty'', ''100.000''), (''Flg'', ''S''), (''Trf'', ''X''),
          (''Clnt'', ''XXXXXXXX''), (''Brkr'', ''INXXXXXX''), (''Rsn'', ''2''),
          (''Conamt'', ''500.50''), (''Paymod'', ''2''), (''Bnkno'', ''''), (''Bnkname'', ''''),
          (''Brnchname'', ''''), (''Xferdt'', ''01012025''), (''Chqrefno'', ''00000007'')] ''Tp''
     = Some ''4''"
proof -
  note a = type_code_by_prefix [OF row_nsdl_example, unfolded ctr_nsdl_example]
  note b = type_code_by_prefix [OF row_cdsl_example, unfolded ctr_cdsl_example]
  from a [THEN conjunct1] b [THEN conjunct1] row_cdsl_example show ?thesis by simp
qed

lemma normalize_dt_15:
  "normalize_dt py_libs (strip_values (py_dict (zip [''Dt'', ''CtrPty''] [''01/01/2025'', ''IN3456789012345''])))
   = Inr [(''Dt'', ''01012025''), (''CtrPty'', ''IN3456789012345'')]"
  unfolding normalize_dt_def lookup_def strip_values_def py_dict_def strip_def py_isspace_def py_libs_def
  by (simp add: dayfirst_01012025)

lemma normalize_dt_17:
  "normalize_dt py_libs (strip_values (py_dict (zip [''Dt'', ''CtrPty''] [''01/01/2025'', ''  IN345678901234567 ''])))
   = Inr [(''Dt'', ''01012025''), (''CtrPty'', ''IN345678901234567'')]"
  unfolding normalize_dt_def lookup_def strip_values_def py_dict_def strip_def py_isspace_def py_libs_def
  by (simp add: dayfirst_01012025)

lemma normalize_dt_absent:
  "normalize_dt py_libs (strip_values (py_dict (zip [''Dt'', ''CtrPty''] [''01/01/2025''])))
   = Inr [(''Dt'', ''01012025'')]"
  unfolding normalize_dt_def lookup_def strip_values_def py_dict_def strip_def py_isspace_def py_libs_def
  by (simp add: dayfirst_01012025)

lemma encode_row_invalid_ctrpty_examples:
  "encode_row py_libs [''Dt'', ''CtrPty''] [''01/01/2025'', ''IN3456789012345'']
     = Inl (InvalidCtrPty ''IN3456789012345'')
   \<and> encode_row py_libs [''Dt'', ''CtrPty''] [''01/01/2025'', ''  IN345678901234567 '']
     = Inl (InvalidCtrPty ''IN345678901234567'')
   \<and> encode_row py_libs [''Dt'', ''CtrPty''] [''01/01/2025'']
     = Inl (InvalidCtrPty '''')"
proof -
  have c15: "get (strip_values (py_dict (zip [''Dt'', ''CtrPty''] [''01/01/2025'', ''IN3456789012345''])))
      ''CtrPty'' '''' = ''IN3456789012345''"
    unfolding get_def lookup_def strip_values_def py_dict_def strip_def py_isspace_def by simp
  have c17: "get (strip_values (py_dict (zip [''Dt'', ''CtrPty''] [''01/01/2025'', ''  IN345678901234567 ''])))
      ''CtrPty'' '''' = ''IN345678901234567''"
    unfolding get_def lookup_def strip_values_def py_dict_def strip_def py_isspace_def by simp
  have c0: "get (strip_values (py_dict (zip [''Dt'', ''CtrPty''] [''01/01/2025''])))
      ''CtrPty'' '''' = ''''"
    unfolding get_def lookup_def strip_values_def py_dict_def strip_def py_isspace_def by simp
  note a = encode_row_invalid_ctrpty [OF normalize_dt_15, unfolded c15]
  note b = encode_row_invalid_ctrpty [OF normalize_dt_17, unfolded c17]
  note c = encode_row_invalid_ctrpty [OF normalize_dt_absent, unfolded c0]
  from a [THEN conjunct2, THEN conjunct2] have 1: "encode_row py_libs [''Dt'', ''CtrPty''] [''01/01/2025'', ''IN3456789012345'']
     = Inl (InvalidCtrPty ''IN3456789012345'')" by simp
  from b [THEN conjunct2, THEN conjunct2] have 2: "encode_row py_libs [''Dt'', ''CtrPty''] [''01/01/2025'', ''  IN345678901234567 '']
     = Inl (InvalidCtrPty ''IN345678901234567'')" by simp
  from c [THEN conjunct1] have "\<exists>v. encode_row py_libs [''Dt'', ''CtrPty''] [''01/01/2025''] = Inl (InvalidCtrPty v)"
    by simp
  with c [THEN conjunct2, THEN conjunct1] have 3: "encode_row py_libs [''Dt'', ''CtrPty''] [''01/01/2025''] = Inl (InvalidCtrPty '''')"
    by blast
  from 1 2 3 show ?thesis by blast
qed

section \<open>Numeric and reference fields\<close>



lemma float3_abc: "float_fixed_py 3 ''abc'' = None"
  unfolding float_defs by (simp add: str_nat.simps replicate_num digit_char_def zfill_def)




lemmas csv_defs = csv_rows_def splitlines_def is_linebreak_def parse_reset_def
  parse_process_char_def start_field_def parse_add_char_def parse_save_field_def is_crlf_def
  field_limit_def

lemma csv_short_ctrpty:
  "csv_rows ''Dt,CtrPty\<newline>01/01/2025,SHORT\<newline>'' = Some [[''Dt'', ''CtrPty''], [''01/01/2025'', ''SHORT'']]"
  unfolding csv_defs by (simp add: csv_defs)


section \<open>The upload handler by cases\<close>

lemma check_dates_errors:
  "check_dates L headers file_date rows = Some r \<Longrightarrow>
     (\<exists>v. r = InvalidDt v) \<or> (\<exists>a. r = DtMismatch a file_date \<and> a \<noteq> file_date)"
  by (induction rows) (auto split: option.splits if_splits)

lemma validate_batch_errors:
  assumes "validate_batch L rows = Inl r"
  shows "r = CsvFormatInvalid \<or> r = MissingDtFirstRow \<or> (\<exists>v. r = InvalidDtFirstRow v)
       \<or> (\<exists>v. r = InvalidDt v) \<or> (\<exists>a b. r = DtMismatch a b)"
  using assms
  by (auto simp: validate_batch_def Let_def split: option.splits if_splits
           dest!: check_dates_errors)

lemma validate_batch_format:
  "validate_batch L rows = Inl CsvFormatInvalid \<longleftrightarrow> length rows < 2"
  by (auto simp: validate_batch_def Let_def split: option.splits if_splits
           dest!: check_dates_errors)


lemma row_fields_errors:
  assumes "row_fields L headers row = Inl r"
  shows "(\<exists>v. r = InvalidDt v) \<or> (\<exists>v. r = InvalidCtrPty v) \<or> (\<exists>v. r = InvalidQty v)
       \<or> (\<exists>v. r = InvalidConamt v)"
  using assms
  by (auto simp: row_fields_def Let_def split: sum.splits if_splits
           dest!: normalize_dt_errors format_qty_errors format_conamt_errors)

lemma build_body_errors:
  "build_body L headers rows = Inl r \<Longrightarrow>
     (\<exists>v. r = InvalidDt v) \<or> (\<exists>v. r = InvalidCtrPty v) \<or> (\<exists>v. r = InvalidQty v)
       \<or> (\<exists>v. r = InvalidConamt v)"
proof (induction rows)
  case Nil
  then show ?case by simp
next
  case (Cons row rows)
  show ?case
  proof (cases "encode_row L headers row")
    case (Inl a)
    with Cons.prems have "row_fields L headers row = Inl r" by (simp add: encode_row_Inl)
    then show ?thesis by (rule row_fields_errors)
  next
    case (Inr line)
    with Cons.prems have "build_body L headers rows = Inl r" by (simp split: sum.splits)
    then show ?thesis by (rule Cons.IH)
  qed
qed


text \<open>The allocator touches the counters only, and always changes the one it uses.\<close>

lemma get_next_file_id_frame:
  "db_uploaded (snd (get_next_file_id e st)) = db_uploaded st"
  "csv_files (snd (get_next_file_id e st)) = csv_files st"
  "reconverted (snd (get_next_file_id e st)) = reconverted st"
  by (auto simp: get_next_file_id_def get_file_counter_def Let_def split: option.splits)

lemma get_next_file_id_changes: "snd (get_next_file_id e st) \<noteq> st"
proof
  assume eq: "snd (get_next_file_id e st) = st"
  obtain i st' where step: "get_next_file_id e st = (i, st')" by (cases "get_next_file_id e st")
  with eq have st: "st' = st" by simp
  from get_next_file_id_step [OF step, of "db_counter_ok e"]
  have "stored_counter (db_counter_ok e) st = Some (i, strftime_iso (today e))"
    and "i = (case stored_counter (db_counter_ok e) st of None \<Rightarrow> 1
              | Some (j, d) \<Rightarrow> if d = strftime_iso (today e) then j + 1 else 1)"
    unfolding st by simp_all
  then show False by (auto split: option.splits if_splits)
qed

text \<open>Every way through the handler.\<close>

lemma upload_csv_cases:
  assumes "upload_csv L e st file = (r, st')"
  obtains
    (no_file) "file = None \<or> (\<exists>f. file = Some f \<and> filename f = [])"
      "r = NoFileUploaded" "st' = st"
  | (duplicate) f u where "file = Some f" "filename f \<noteq> []"
      "find_duplicate e st (sha256_hexdigest L (content f)) = Some u"
      "r = FileAlreadyExists (raw_filename u)" "st' = st"
  | (csv_error) f where "file = Some f" "filename f \<noteq> []"
      "find_duplicate e st (sha256_hexdigest L (content f)) = None"
      "csv_reader L (content f) = None" "r = UnhandledCsvError" "st' = st"
  | (rejected) f rows where "file = Some f" "filename f \<noteq> []"
      "find_duplicate e st (sha256_hexdigest L (content f)) = None"
      "csv_reader L (content f) = Some rows" "validate_batch L rows = Inl r" "st' = st"
  | (row_error) f rows headers data_rows file_date where "file = Some f" "filename f \<noteq> []"
      "find_duplicate e st (sha256_hexdigest L (content f)) = None"
      "csv_reader L (content f) = Some rows"
      "validate_batch L rows = Inr (headers, data_rows, file_date)"
      "build_body L headers data_rows = Inl r" "st' = snd (get_next_file_id e st)"
  | (created) f rows headers data_rows file_date lines where "file = Some f" "filename f \<noteq> []"
      "find_duplicate e st (sha256_hexdigest L (content f)) = None"
      "csv_reader L (content f) = Some rows"
      "validate_batch L rows = Inr (headers, data_rows, file_date)"
      "build_body L headers data_rows = Inr lines"
      "r = RawFileCreated (file_name (strftime_dmy (naming_day e))
             (zfill 5 (str_int (fst (get_next_file_id e st)))))"
      "st' = save_upload e
         \<lparr>file_id = zfill 5 (str_int (fst (get_next_file_id e st))),
          original_filename = filename f,
          csv_content = content f,
          raw_content = join [CHR 0x0A]
            (raw_header (zfill 6 (str_nat (length data_rows)))
               (zfill 5 (str_int (fst (get_next_file_id e st)))) (strftime_dmy (naming_day e))
             # lines @ ['''']),
          raw_filename = file_name (strftime_dmy (naming_day e))
             (zfill 5 (str_int (fst (get_next_file_id e st)))),
          file_hash = sha256_hexdigest L (content f)\<rparr>
         (snd (get_next_file_id e st))"
proof (cases "file")
  case None
  with assms have "r = NoFileUploaded" "st' = st" by (simp_all add: upload_csv_def)
  with None show ?thesis by (intro no_file) auto
next
  case (Some f)
  show ?thesis
  proof (cases "filename f = []")
    case True
    with assms Some have "r = NoFileUploaded" "st' = st" by (simp_all add: upload_csv_def)
    with Some True show ?thesis by (intro no_file) auto
  next
    case fn: False
    show ?thesis
    proof (cases "find_duplicate e st (sha256_hexdigest L (content f))")
      case (Some u)
      with assms \<open>file = Some f\<close> fn show ?thesis
        by (intro duplicate [of f u]) (simp_all add: upload_csv_def Let_def)
    next
      case dup: None
      show ?thesis
      proof (cases "csv_reader L (content f)")
        case None
        with assms \<open>file = Some f\<close> fn dup show ?thesis
          by (intro csv_error [of f]) (simp_all add: upload_csv_def Let_def)
      next
        case rows: (Some rows)
        show ?thesis
        proof (cases "validate_batch L rows")
          case (Inl a)
          with assms \<open>file = Some f\<close> fn dup rows show ?thesis
            by (intro rejected [of f rows]) (simp_all add: upload_csv_def Let_def)
        next
          case (Inr t)
          obtain headers data_rows file_date where t: "t = (headers, data_rows, file_date)"
            by (cases t)
          obtain i st1 where a: "get_next_file_id e st = (i, st1)"
            by (cases "get_next_file_id e st")
          show ?thesis
          proof (cases "build_body L headers data_rows")
            case (Inl b)
            with assms \<open>file = Some f\<close> fn dup rows Inr t a show ?thesis
              by (intro row_error [of f rows headers data_rows file_date])
                 (simp_all add: upload_csv_def Let_def)
          next
            case (Inr lines)
            with assms \<open>file = Some f\<close> fn dup rows \<open>validate_batch L rows = Inr t\<close> t a
            show ?thesis
              by (intro created [of f rows headers data_rows file_date lines])
                 (simp_all add: upload_csv_def Let_def)
          qed
        qed
      qed
    qed
  qed
qed

section \<open>Evaluating the handler on example batches\<close>

lemmas validate_defs = validate_batch_def lookup_def py_dict_def strip_def py_isspace_def Let_def

lemmas alloc_defs = get_next_file_id_def get_file_counter_def env_on_def st_empty_def nov3_def
  nov4_def strftime_iso_def strftime_dmy_def zfill_def digit_char_def str_int_def Let_def

lemmas upload_defs = upload_csv_def find_duplicate_def save_upload_def file_name_def
  raw_header_def Bnfcry_def RAW_HEADER_PREFIX_def join_def Let_def

lemma alloc_first_nov3:
  "get_next_file_id (env_on nov3 True) st_empty
   = (1, st_empty\<lparr>db_counter := Some \<lparr>last_id = 1, last_date = ''2026-11-03''\<rparr>\<rparr>)"
  unfolding alloc_defs by (simp add: str_nat.simps replicate_num digit_char_def)

lemma validate_short_ctrpty:
  "validate_batch py_libs [[''Dt'', ''CtrPty''], [''01/01/2025'', ''SHORT'']]
   = Inr ([''Dt'', ''CtrPty''], [[''01/01/2025'', ''SHORT'']], ''01012025'')"
  unfolding validate_defs py_libs_def by (simp add: dayfirst_01012025 lookup_def py_dict_def)

lemma body_short_ctrpty:
  "encode_row py_libs [''Dt'', ''CtrPty''] [''01/01/2025'', ''SHORT''] = Inl (InvalidCtrPty ''SHORT'')"
  unfolding encode_row_def row_defs py_libs_def
  by (simp add: dayfirst_01012025 del: lookup_update lookup_delete get_update)

lemma upload_short_ctrpty:
  "upload_csv py_libs (env_on nov3 True) st_empty
     (Some \<lparr>filename = ''batch.csv'', content = ''Dt,CtrPty\<newline>01/01/2025,SHORT\<newline>''\<rparr>)
   = (InvalidCtrPty ''SHORT'',
      st_empty\<lparr>db_counter := Some \<lparr>last_id = 1, last_date = ''2026-11-03''\<rparr>\<rparr>)"
proof -
  have c: "csv_reader py_libs = csv_rows" by (simp add: py_libs_def)
  have d: "find_duplicate (env_on nov3 True) st_empty h = None" for h
    by (simp add: find_duplicate_def st_empty_def)
  show ?thesis
    unfolding upload_csv_def
    by (simp add: c d csv_short_ctrpty validate_short_ctrpty body_short_ctrpty alloc_first_nov3)
qed




text \<open>
  Claim C1, amended. A request that ends in a validation error writes no artifact and no
  deduplication record. When the error is found before the body is built (too few rows, a
  missing or invalid date in the first row, a mismatching date) the state is unchanged,
  so no sequence id is consumed. An invalid counter-party identifier and an unparseable
  quantity or consideration amount are found while the body is built, after the
  allocator has run: the state is the one the allocator left, and it differs from the
  state before. (An invalid row date can be found at either place.)
\<close>

theorem validation_error_effects:
  assumes "upload_csv L e st file = (r, st')"
    and "r = CsvFormatInvalid \<or> r = MissingDtFirstRow \<or> (\<exists>v. r = InvalidDtFirstRow v)
       \<or> (\<exists>a b. r = DtMismatch a b) \<or> (\<exists>v. r = InvalidDt v) \<or> (\<exists>v. r = InvalidCtrPty v)
       \<or> (\<exists>v. r = InvalidQty v) \<or> (\<exists>v. r = InvalidConamt v)"
  shows "db_uploaded st' = db_uploaded st \<and> csv_files st' = csv_files st
       \<and> reconverted st' = reconverted st
       \<and> (st' = st \<or> st' = snd (get_next_file_id e st))
       \<and> (r = CsvFormatInvalid \<or> r = MissingDtFirstRow \<or> (\<exists>v. r = InvalidDtFirstRow v)
            \<or> (\<exists>a b. r = DtMismatch a b) \<longrightarrow> st' = st)
       \<and> ((\<exists>v. r = InvalidCtrPty v) \<or> (\<exists>v. r = InvalidQty v) \<or> (\<exists>v. r = InvalidConamt v)
            \<longrightarrow> st' = snd (get_next_file_id e st) \<and> st' \<noteq> st)"
  using assms(1)
proof (cases rule: upload_csv_cases)
  case no_file
  with assms(2) show ?thesis by auto
next
  case (duplicate f u)
  with assms(2) show ?thesis by auto
next
  case (csv_error f)
  with assms(2) show ?thesis by auto
next
  case (rejected f rows)
  from validate_batch_errors [OF rejected(5)] rejected(6) show ?thesis by auto
next
  case (row_error f rows headers data_rows file_date)
  from build_body_errors [OF row_error(6)] row_error(7) show ?thesis
    by (auto simp: get_next_file_id_frame get_next_file_id_changes)
next
  case (created f rows headers data_rows file_date lines)
  with assms(2) show ?thesis by auto
qed

theorem validation_error_effects_witness:
  "snd (upload_csv py_libs (env_on nov3 True) st_empty
     (Some \<lparr>filename = ''batch.csv'', content = ''Dt,CtrPty\<newline>01/01/2025,SHORT\<newline>''\<rparr>))
   = snd (get_next_file_id (env_on nov3 True) st_empty)
   \<and> reconverted (snd (upload_csv py_libs (env_on nov3 True) st_empty
     (Some \<lparr>filename = ''batch.csv'', content = ''Dt,CtrPty\<newline>01/01/2025,SHORT\<newline>''\<rparr>)))
     = reconverted st_empty
   \<and> db_uploaded (snd (upload_csv py_libs (env_on nov3 True) st_empty
     (Some \<lparr>filename = ''batch.csv'', content = ''Dt,CtrPty\<newline>01/01/2025,SHORT\<newline>''\<rparr>)))
     = db_uploaded st_empty"
proof -
  let ?u = "Some \<lparr>filename = ''batch.csv'', content = ''Dt,CtrPty\<newline>01/01/2025,SHORT\<newline>''\<rparr>"
  have k: "InvalidCtrPty ''SHORT'' = CsvFormatInvalid \<or> InvalidCtrPty ''SHORT'' = MissingDtFirstRow
       \<or> (\<exists>v. InvalidCtrPty ''SHORT'' = InvalidDtFirstRow v)
       \<or> (\<exists>a b. InvalidCtrPty ''SHORT'' = DtMismatch a b) \<or> (\<exists>v. InvalidCtrPty ''SHORT'' = InvalidDt v)
       \<or> (\<exists>v. InvalidCtrPty ''SHORT'' = InvalidCtrPty v)
       \<or> (\<exists>v. InvalidCtrPty ''SHORT'' = InvalidQty v) \<or> (\<exists>v. InvalidCtrPty ''SHORT'' = InvalidConamt v)"
    by simp
  note w = validation_error_effects [OF upload_short_ctrpty k]
  let ?s = "st_empty\<lparr>db_counter := Some \<lparr>last_id = 1, last_date = ''2026-11-03''\<rparr>\<rparr>"
  have a: "db_uploaded ?s = db_uploaded st_empty"
    using w by (rule conjunct1)
  have b: "reconverted ?s = reconverted st_empty"
    using w [THEN conjunct2, THEN conjunct2] by (rule conjunct1)
  have c: "?s = snd (get_next_file_id (env_on nov3 True) st_empty)"
    using w [THEN conjunct2, THEN conjunct2, THEN conjunct2, THEN conjunct2, THEN conjunct2]
    by simp
  show ?thesis
    unfolding upload_short_ctrpty snd_conv using a b c by blast
qed

text \<open>
  Claim C1 as stated fails: a batch whose only row has a 5-character counter-party
  identifier is rejected, yet the counter of the fresh database goes from nothing to 1
  and the next allocation returns 2.
\<close>

theorem validation_error_consumes_id:
  "fst (upload_csv py_libs (env_on nov3 True) st_empty
     (Some \<lparr>filename = ''batch.csv'', content = ''Dt,CtrPty\<newline>01/01/2025,SHORT\<newline>''\<rparr>))
   = InvalidCtrPty ''SHORT''
   \<and> db_counter st_empty = None
   \<and> db_counter (snd (upload_csv py_libs (env_on nov3 True) st_empty
     (Some \<lparr>filename = ''batch.csv'', content = ''Dt,CtrPty\<newline>01/01/2025,SHORT\<newline>''\<rparr>)))
     = Some \<lparr>last_id = 1, last_date = ''2026-11-03''\<rparr>
   \<and> fst (get_next_file_id (env_on nov3 True) (snd (upload_csv py_libs (env_on nov3 True) st_empty
     (Some \<lparr>filename = ''batch.csv'', content = ''Dt,CtrPty\<newline>01/01/2025,SHORT\<newline>''\<rparr>))))
     = 2"
  unfolding upload_short_ctrpty
  by (simp add: st_empty_def get_next_file_id_def env_on_def nov3_def strftime_iso_def zfill_def
      str_nat.simps digit_char_def)

lemma zip_surplus: "length xs \<le> length ys \<Longrightarrow> zip xs (ys @ zs) = zip xs ys"
  by (simp add: zip_append2)

text \<open>
  Claim C4, amended. For an upload that is not a duplicate and that the reader parses,
  the handler answers with the format error if and only if fewer than two rows were
  read, and then the state is unchanged. The number of cells of a row is never checked:
  a row is paired with the header by position, so cells beyond the header's length do
  not change the encoding (and cells that are missing leave their columns absent).
\<close>

theorem format_error_iff:
  assumes "filename f \<noteq> []"
    and "find_duplicate e st (sha256_hexdigest L (content f)) = None"
    and "csv_reader L (content f) = Some rows"
  shows "(fst (upload_csv L e st (Some f)) = CsvFormatInvalid \<longleftrightarrow> length rows < 2)
       \<and> (length rows < 2 \<longrightarrow> upload_csv L e st (Some f) = (CsvFormatInvalid, st))
       \<and> (\<forall>headers row surplus. length headers \<le> length row \<longrightarrow>
              encode_row L headers (row @ surplus) = encode_row L headers row)"
proof -
  obtain r st' where u: "upload_csv L e st (Some f) = (r, st')"
    by (cases "upload_csv L e st (Some f)")
  have short: "upload_csv L e st (Some f) = (CsvFormatInvalid, st)" if "length rows < 2"
    using that assms by (simp add: upload_csv_def validate_batch_def Let_def)
  have long: "r \<noteq> CsvFormatInvalid" if "\<not> length rows < 2"
    using u
  proof (cases rule: upload_csv_cases)
    case (rejected f' rows')
    with assms(3) have "validate_batch L rows = Inl r" by simp
    with that show ?thesis using validate_batch_format [of L rows] by auto
  next
    case (row_error f' rows' headers data_rows file_date)
    from build_body_errors [OF row_error(6)] show ?thesis by auto
  qed (use assms in auto)
  have sur: "encode_row L headers (row @ surplus) = encode_row L headers row"
    if "length headers \<le> length row" for headers row surplus
    using that by (simp add: encode_row_def row_fields_def zip_surplus)
  from short long u sur show ?thesis by auto
qed

lemma csv_header_only: "csv_rows ''Dt,CtrPty\<newline>'' = Some [[''Dt'', ''CtrPty'']]"
  unfolding csv_defs by (simp add: csv_defs)

theorem format_error_iff_witness:
  "upload_csv py_libs (env_on nov3 True) st_empty
     (Some \<lparr>filename = ''batch.csv'', content = ''Dt,CtrPty\<newline>''\<rparr>)
   = (CsvFormatInvalid, st_empty)
   \<and> upload_csv py_libs (env_on nov3 True) st_empty
     (Some \<lparr>filename = ''batch.csv'', content = ''''\<rparr>)
   = (CsvFormatInvalid, st_empty)"
proof -
  have d: "find_duplicate (env_on nov3 True) st_empty h = None" for h
    by (simp add: find_duplicate_def st_empty_def)
  have c1: "csv_reader py_libs (content \<lparr>filename = ''batch.csv'', content = ''Dt,CtrPty\<newline>''\<rparr>)
      = Some [[''Dt'', ''CtrPty'']]"
    by (simp add: py_libs_def csv_header_only)
  have c2: "csv_reader py_libs (content \<lparr>filename = ''batch.csv'', content = ''''\<rparr>) = Some []"
    unfolding csv_defs py_libs_def by (simp add: csv_defs)
  have n: "filename \<lparr>filename = ''batch.csv'', content = x\<rparr> \<noteq> []" for x by simp
  note a = format_error_iff [OF n d c1, THEN conjunct2, THEN conjunct1]
  note b = format_error_iff [OF n d c2, THEN conjunct2, THEN conjunct1]
  from a b show ?thesis by simp
qed

lemma csv_ragged:
  "csv_rows ''Dt,CtrPty,Qty\<newline>01/01/2025,INXXXXXXXXXXXXXX\<newline>''
   = Some [[''Dt'', ''CtrPty'', ''Qty''], [''01/01/2025'', ''INXXXXXXXXXXXXXX'']]"
  unfolding csv_defs by (simp add: csv_defs)

lemma validate_ragged:
  "validate_batch py_libs [[''Dt'', ''CtrPty'', ''Qty''], [''01/01/2025'', ''INXXXXXXXXXXXXXX'']]
   = Inr ([''Dt'', ''CtrPty'', ''Qty''], [[''01/01/2025'', ''INXXXXXXXXXXXXXX'']], ''01012025'')"
  unfolding validate_defs py_libs_def by (simp add: dayfirst_01012025 lookup_def py_dict_def)

lemma encode_ragged:
  "encode_row py_libs [''Dt'', ''CtrPty'', ''Qty''] [''01/01/2025'', ''INXXXXXXXXXXXXXX'']
   = Inr (''<Tp>4</Tp><Dt>01012025</Dt><Bnfcry>1207650000865934</Bnfcry><ISIN></ISIN>''
        @ ''<Qty></Qty><Flg>S</Flg><Trf>X</Trf><Clnt>XXXXXXXX</Clnt><Brkr>INXXXXXX</Brkr>''
        @ ''<Rsn>2</Rsn><Conamt></Conamt><Paymod>2</Paymod><Bnkno></Bnkno>''
        @ ''<Bnkname></Bnkname><Brnchname></Brnchname><Xferdt>01012025</Xferdt>''
        @ ''<Chqrefno>00000000</Chqrefno>'')"
  unfolding encode_row_def row_defs py_libs_def render_line_def render_tag_def
  by (simp add: dayfirst_01012025 replicate_num del: lookup_update lookup_delete get_update)

text \<open>
  Claim C4 as stated fails: a batch with three header columns and a data row of two
  cells is accepted and an artifact is written.
\<close>

theorem ragged_batch_accepted:
  "fst (upload_csv py_libs (env_on nov3 True) st_empty
     (Some \<lparr>filename = ''batch.csv'',
            content = ''Dt,CtrPty,Qty\<newline>01/01/2025,INXXXXXXXXXXXXXX\<newline>''\<rparr>))
   = RawFileCreated ''181207650000865934.03112026.00001''
   \<and> reconverted (snd (upload_csv py_libs (env_on nov3 True) st_empty
     (Some \<lparr>filename = ''batch.csv'',
            content = ''Dt,CtrPty,Qty\<newline>01/01/2025,INXXXXXXXXXXXXXX\<newline>''\<rparr>)))
       ''181207650000865934.03112026.00001''
   = Some (''076500DPADM 0000010000103112026\<newline>''
        @ ''<Tp>4</Tp><Dt>01012025</Dt><Bnfcry>1207650000865934</Bnfcry><ISIN></ISIN>''
        @ ''<Qty></Qty><Flg>S</Flg><Trf>X</Trf><Clnt>XXXXXXXX</Clnt><Brkr>INXXXXXX</Brkr>''
        @ ''<Rsn>2</Rsn><Conamt></Conamt><Paymod>2</Paymod><Bnkno></Bnkno>''
        @ ''<Bnkname></Bnkname><Brnchname></Brnchname><Xferdt>01012025</Xferdt>''
        @ ''<Chqrefno>00000000</Chqrefno>\<newline>'')"
proof -
  have c: "csv_reader py_libs = csv_rows" "sha256_hexdigest py_libs = sha256_hex"
    by (simp_all add: py_libs_def)
  have d: "find_duplicate (env_on nov3 True) st_empty h = None" for h
    by (simp add: find_duplicate_def st_empty_def)
  have t: "strftime_dmy (naming_day (env_on nov3 True)) = ''03112026''"
    unfolding alloc_defs by (simp add: str_nat.simps replicate_num digit_char_def)
  have z: "zfill 5 (str_int 1) = ''00001''" "zfill 6 (str_nat (Suc 0)) = ''000001''"
    unfolding zfill_def str_int_def by (simp_all add: str_nat.simps replicate_num digit_char_def)
  have s: "db_save_ok (env_on nov3 True)" by (simp add: env_on_def)
  show ?thesis
    unfolding upload_csv_def Let_def
    apply (simp add: c d t z s csv_ragged validate_ragged encode_ragged alloc_first_nov3
        save_upload_def file_name_def raw_header_def Bnfcry_def RAW_HEADER_PREFIX_def join_def)
    done
qed

section \<open>The first offending row\<close>

lemma build_body_Inl_iff:
  "build_body L headers rows = Inl r \<longleftrightarrow>
     (\<exists>i < length rows.
         (\<forall>j < i. \<exists>line. encode_row L headers (rows ! j) = Inr line)
       \<and> encode_row L headers (rows ! i) = Inl r)"
proof (induction rows)
  case Nil
  then show ?case by simp
next
  case (Cons row rows)
  show ?case
  proof (cases "encode_row L headers row")
    case (Inl a)
    show ?thesis
    proof
      assume "build_body L headers (row # rows) = Inl r"
      with Inl have "encode_row L headers ((row # rows) ! 0) = Inl r" by simp
      then show "\<exists>i < length (row # rows).
         (\<forall>j < i. \<exists>line. encode_row L headers ((row # rows) ! j) = Inr line)
       \<and> encode_row L headers ((row # rows) ! i) = Inl r"
        by (intro exI [of _ 0]) simp
    next
      assume "\<exists>i < length (row # rows).
         (\<forall>j < i. \<exists>line. encode_row L headers ((row # rows) ! j) = Inr line)
       \<and> encode_row L headers ((row # rows) ! i) = Inl r"
      then obtain i where i: "i < length (row # rows)"
        "\<forall>j < i. \<exists>line. encode_row L headers ((row # rows) ! j) = Inr line"
        "encode_row L headers ((row # rows) ! i) = Inl r" by blast
      have "i = 0"
      proof (rule ccontr)
        assume "i \<noteq> 0"
        then have "0 < i" by simp
        with i(2) have "\<exists>line. encode_row L headers ((row # rows) ! 0) = Inr line" by blast
        with Inl show False by simp
      qed
      with i(3) Inl show "build_body L headers (row # rows) = Inl r" by simp
    qed
  next
    case (Inr line)
    have "build_body L headers (row # rows) = Inl r \<longleftrightarrow> build_body L headers rows = Inl r"
      using Inr by (simp split: sum.splits)
    also have "\<dots> \<longleftrightarrow> (\<exists>i < length rows.
         (\<forall>j < i. \<exists>line. encode_row L headers (rows ! j) = Inr line)
       \<and> encode_row L headers (rows ! i) = Inl r)"
      by (rule Cons.IH)
    also have "\<dots> \<longleftrightarrow> (\<exists>i < length (row # rows).
         (\<forall>j < i. \<exists>line. encode_row L headers ((row # rows) ! j) = Inr line)
       \<and> encode_row L headers ((row # rows) ! i) = Inl r)"
    proof
      assume "\<exists>i < length rows.
         (\<forall>j < i. \<exists>line. encode_row L headers (rows ! j) = Inr line)
       \<and> encode_row L headers (rows ! i) = Inl r"
      then obtain i where i: "i < length rows"
        "\<forall>j < i. \<exists>line. encode_row L headers (rows ! j) = Inr line"
        "encode_row L headers (rows ! i) = Inl r" by blast
      have "\<exists>line. encode_row L headers ((row # rows) ! j) = Inr line" if "j < Suc i" for j
        using that i(2) Inr by (cases j) auto
      with i(1,3) show "\<exists>i < length (row # rows).
         (\<forall>j < i. \<exists>line. encode_row L headers ((row # rows) ! j) = Inr line)
       \<and> encode_row L headers ((row # rows) ! i) = Inl r"
        by (intro exI [of _ "Suc i"]) simp
    next
      assume "\<exists>i < length (row # rows).
         (\<forall>j < i. \<exists>line. encode_row L headers ((row # rows) ! j) = Inr line)
       \<and> encode_row L headers ((row # rows) ! i) = Inl r"
      then obtain i where i: "i < length (row # rows)"
        "\<forall>j < i. \<exists>line. encode_row L headers ((row # rows) ! j) = Inr line"
        "encode_row L headers ((row # rows) ! i) = Inl r" by blast
      from i(3) Inr obtain k where k: "i = Suc k" by (cases i) auto
      have "\<exists>line. encode_row L headers (rows ! j) = Inr line" if "j < k" for j
        using i(2) that k by (auto dest: spec [of _ "Suc j"])
      with i(1,3) k show "\<exists>i < length rows.
         (\<forall>j < i. \<exists>line. encode_row L headers (rows ! j) = Inr line)
       \<and> encode_row L headers (rows ! i) = Inl r"
        by (intro exI [of _ k]) simp
    qed
    finally show ?thesis .
  qed
qed

lemma encode_row_InvalidCtrPty_iff:
  "encode_row L headers row = Inl (InvalidCtrPty v) \<longleftrightarrow>
     (\<exists>d1. normalize_dt L (strip_values (py_dict (zip headers row))) = Inr d1)
     \<and> v = get (strip_values (py_dict (zip headers row))) ''CtrPty'' ''''
     \<and> (v = [] \<or> length v \<noteq> 16)"
proof (cases "normalize_dt L (strip_values (py_dict (zip headers row)))")
  case (Inl r)
  from normalize_dt_errors [OF Inl] obtain w where "r = InvalidDt w" by blast
  with Inl have "encode_row L headers row = Inl (InvalidDt w)"
    by (simp add: encode_row_def row_fields_def)
  with Inl show ?thesis by simp
next
  case (Inr d1)
  note r = encode_row_invalid_ctrpty [OF Inr]
  show ?thesis
  proof
    assume a: "encode_row L headers row = Inl (InvalidCtrPty v)"
    with r have "v = get (strip_values (py_dict (zip headers row))) ''CtrPty'' ''''" by blast
    moreover from a r have "get (strip_values (py_dict (zip headers row))) ''CtrPty'' '''' = []
        \<or> length (get (strip_values (py_dict (zip headers row))) ''CtrPty'' '''') \<noteq> 16"
      by blast
    ultimately show "(\<exists>d1. normalize_dt L (strip_values (py_dict (zip headers row))) = Inr d1)
     \<and> v = get (strip_values (py_dict (zip headers row))) ''CtrPty'' ''''
     \<and> (v = [] \<or> length v \<noteq> 16)"
      using Inr by simp
  next
    assume b: "(\<exists>d1. normalize_dt L (strip_values (py_dict (zip headers row))) = Inr d1)
     \<and> v = get (strip_values (py_dict (zip headers row))) ''CtrPty'' ''''
     \<and> (v = [] \<or> length v \<noteq> 16)"
    with r obtain w where w: "encode_row L headers row = Inl (InvalidCtrPty w)" by blast
    with r have "w = get (strip_values (py_dict (zip headers row))) ''CtrPty'' ''''" by blast
    with b w show "encode_row L headers row = Inl (InvalidCtrPty v)" by simp
  qed
qed

lemma upload_csv_validated:
  assumes "filename f \<noteq> []"
    and "find_duplicate e st (sha256_hexdigest L (content f)) = None"
    and "csv_reader L (content f) = Some rows"
    and "validate_batch L rows = Inr (headers, data_rows, file_date)"
  shows "fst (upload_csv L e st (Some f)) = r \<and> (\<forall>fn. r \<noteq> RawFileCreated fn)
           \<longleftrightarrow> build_body L headers data_rows = Inl r"
proof -
  obtain i st1 where a: "get_next_file_id e st = (i, st1)" by (cases "get_next_file_id e st")
  show ?thesis
  proof (cases "build_body L headers data_rows")
    case (Inl b)
    with assms a have "fst (upload_csv L e st (Some f)) = b"
      by (simp add: upload_csv_def Let_def)
    with Inl build_body_errors [OF Inl] show ?thesis by auto
  next
    case (Inr lines)
    with assms a have "\<exists>fn. fst (upload_csv L e st (Some f)) = RawFileCreated fn"
      by (simp add: upload_csv_def Let_def)
    with Inr show ?thesis by auto
  qed
qed

lemma csv_second_short:
  "csv_rows ''Dt,CtrPty\<newline>01/01/2025,INXXXXXXXXXXXXXX\<newline>01/01/2025,IN3456789012345\<newline>''
   = Some [[''Dt'', ''CtrPty''], [''01/01/2025'', ''INXXXXXXXXXXXXXX''],
           [''01/01/2025'', ''IN3456789012345'']]"
  unfolding csv_defs by (simp add: csv_defs)

lemma validate_second_short:
  "validate_batch py_libs [[''Dt'', ''CtrPty''], [''01/01/2025'', ''INXXXXXXXXXXXXXX''],
           [''01/01/2025'', ''IN3456789012345'']]
   = Inr ([''Dt'', ''CtrPty''],
          [[''01/01/2025'', ''INXXXXXXXXXXXXXX''], [''01/01/2025'', ''IN3456789012345'']],
          ''01012025'')"
  unfolding validate_defs py_libs_def by (simp add: dayfirst_01012025 lookup_def py_dict_def)

lemma encode_two_columns:
  "encode_row py_libs [''Dt'', ''CtrPty''] [''01/01/2025'', ''INXXXXXXXXXXXXXX'']
   = Inr (''<Tp>4</Tp><Dt>01012025</Dt><Bnfcry>1207650000865934</Bnfcry><ISIN></ISIN>''
        @ ''<Qty></Qty><Flg>S</Flg><Trf>X</Trf><Clnt>XXXXXXXX</Clnt><Brkr>INXXXXXX</Brkr>''
        @ ''<Rsn>2</Rsn><Conamt></Conamt><Paymod>2</Paymod><Bnkno></Bnkno>''
        @ ''<Bnkname></Bnkname><Brnchname></Brnchname><Xferdt>01012025</Xferdt>''
        @ ''<Chqrefno>00000000</Chqrefno>'')"
  unfolding encode_row_def row_defs py_libs_def
  by (simp add: dayfirst_01012025 render_line_def render_tag_def numeral_2_eq_2
      del: lookup_update lookup_delete get_update)

lemma csv_qty_first:
  "csv_rows ''Dt,CtrPty,Qty\<newline>01/01/2025,INXXXXXXXXXXXXXX,abc\<newline>01/01/2025,SHORT,1\<newline>''
   = Some [[''Dt'', ''CtrPty'', ''Qty''], [''01/01/2025'', ''INXXXXXXXXXXXXXX'', ''abc''],
           [''01/01/2025'', ''SHORT'', ''1'']]"
  unfolding csv_defs by (simp add: csv_defs)

lemma validate_qty_first:
  "validate_batch py_libs [[''Dt'', ''CtrPty'', ''Qty''],
           [''01/01/2025'', ''INXXXXXXXXXXXXXX'', ''abc''], [''01/01/2025'', ''SHORT'', ''1'']]
   = Inr ([''Dt'', ''CtrPty'', ''Qty''],
          [[''01/01/2025'', ''INXXXXXXXXXXXXXX'', ''abc''], [''01/01/2025'', ''SHORT'', ''1'']],
          ''01012025'')"
  unfolding validate_defs py_libs_def by (simp add: dayfirst_01012025 lookup_def py_dict_def)

lemma encode_qty_first:
  "encode_row py_libs [''Dt'', ''CtrPty'', ''Qty''] [''01/01/2025'', ''INXXXXXXXXXXXXXX'', ''abc'']
   = Inl (InvalidQty ''abc'')"
  unfolding encode_row_def row_defs py_libs_def
  by (simp add: dayfirst_01012025 float3_abc numeral_2_eq_2
      del: lookup_update lookup_delete get_update)

text \<open>
  Claim C5, amended. For an upload that is not a duplicate, that the reader parses and
  that passes the batch validation, the handler answers with the counter-party error
  carrying \<open>v\<close> exactly when the loop over the data rows returns it, and that is exactly
  when there is a data row such that every row before it encodes, its date step passes,
  \<open>v\<close> is its trimmed \<open>CtrPty\<close> cell (the empty string when the column is absent) and
  \<open>v\<close> is empty or not 16 characters long. The prefix of \<open>v\<close> plays no part. For every
  data row taken alone, encoding it returns the counter-party error with \<open>v\<close> exactly
  under the last three conditions; in the batch only the first row that fails is
  reported, with the error of the first step that fails in it.
\<close>

theorem invalid_counterparty_first_offender:
  assumes "filename f \<noteq> []"
    and "find_duplicate e st (sha256_hexdigest L (content f)) = None"
    and "csv_reader L (content f) = Some rows"
    and "validate_batch L rows = Inr (headers, data_rows, file_date)"
  shows "(fst (upload_csv L e st (Some f)) = InvalidCtrPty v
            \<longleftrightarrow> build_body L headers data_rows = Inl (InvalidCtrPty v))
       \<and> (build_body L headers data_rows = Inl (InvalidCtrPty v)
            \<longleftrightarrow> (\<exists>i < length data_rows.
                   (\<forall>j < i. \<exists>line. encode_row L headers (data_rows ! j) = Inr line)
                 \<and> (\<exists>d1. normalize_dt L (strip_values (py_dict (zip headers (data_rows ! i))))
                           = Inr d1)
                 \<and> v = get (strip_values (py_dict (zip headers (data_rows ! i)))) ''CtrPty'' ''''
                 \<and> (v = [] \<or> length v \<noteq> 16)))
       \<and> (\<forall>i < length data_rows.
             encode_row L headers (data_rows ! i) = Inl (InvalidCtrPty v)
             \<longleftrightarrow> (\<exists>d1. normalize_dt L (strip_values (py_dict (zip headers (data_rows ! i))))
                        = Inr d1)
                 \<and> v = get (strip_values (py_dict (zip headers (data_rows ! i)))) ''CtrPty'' ''''
                 \<and> (v = [] \<or> length v \<noteq> 16))"
proof (intro conjI allI impI)
  have "fst (upload_csv L e st (Some f)) = InvalidCtrPty v
          \<and> (\<forall>fn. InvalidCtrPty v \<noteq> RawFileCreated fn)
        \<longleftrightarrow> build_body L headers data_rows = Inl (InvalidCtrPty v)"
    by (rule upload_csv_validated [OF assms])
  then show "fst (upload_csv L e st (Some f)) = InvalidCtrPty v
            \<longleftrightarrow> build_body L headers data_rows = Inl (InvalidCtrPty v)"
    by simp
next
  show "build_body L headers data_rows = Inl (InvalidCtrPty v)
            \<longleftrightarrow> (\<exists>i < length data_rows.
                   (\<forall>j < i. \<exists>line. encode_row L headers (data_rows ! j) = Inr line)
                 \<and> (\<exists>d1. normalize_dt L (strip_values (py_dict (zip headers (data_rows ! i))))
                           = Inr d1)
                 \<and> v = get (strip_values (py_dict (zip headers (data_rows ! i)))) ''CtrPty'' ''''
                 \<and> (v = [] \<or> length v \<noteq> 16))"
    unfolding build_body_Inl_iff encode_row_InvalidCtrPty_iff ..
next
  fix i
  show "encode_row L headers (data_rows ! i) = Inl (InvalidCtrPty v)
             \<longleftrightarrow> (\<exists>d1. normalize_dt L (strip_values (py_dict (zip headers (data_rows ! i))))
                        = Inr d1)
                 \<and> v = get (strip_values (py_dict (zip headers (data_rows ! i)))) ''CtrPty'' ''''
                 \<and> (v = [] \<or> length v \<noteq> 16)"
    by (rule encode_row_InvalidCtrPty_iff)
qed

theorem invalid_counterparty_first_offender_witness:
  "fst (upload_csv py_libs (env_on nov3 True) st_empty
     (Some \<lparr>filename = ''batch.csv'',
            content = ''Dt,CtrPty\<newline>01/01/2025,INXXXXXXXXXXXXXX\<newline>01/01/2025,IN3456789012345\<newline>''\<rparr>))
   = InvalidCtrPty ''IN3456789012345''
   \<and> build_body py_libs [''Dt'', ''CtrPty'']
        [[''01/01/2025'', ''INXXXXXXXXXXXXXX''], [''01/01/2025'', ''IN3456789012345'']]
     = Inl (InvalidCtrPty ''IN3456789012345'')"
proof -
  let ?f = "\<lparr>filename = ''batch.csv'',
            content = ''Dt,CtrPty\<newline>01/01/2025,INXXXXXXXXXXXXXX\<newline>01/01/2025,IN3456789012345\<newline>''\<rparr>"
  let ?rows = "[[''01/01/2025'', ''INXXXXXXXXXXXXXX''], [''01/01/2025'', ''IN3456789012345'']]"
  have h1: "filename ?f \<noteq> []" by simp
  have h2: "find_duplicate (env_on nov3 True) st_empty (sha256_hexdigest py_libs (content ?f)) = None"
    by (simp add: find_duplicate_def st_empty_def)
  have h3: "csv_reader py_libs (content ?f) = Some ([''Dt'', ''CtrPty''] # ?rows)"
    by (simp add: py_libs_def csv_second_short)
  note w = invalid_counterparty_first_offender [OF h1 h2 h3 validate_second_short,
      of "''IN3456789012345''"]
  have c15: "get (strip_values (py_dict (zip [''Dt'', ''CtrPty''] [''01/01/2025'', ''IN3456789012345''])))
      ''CtrPty'' '''' = ''IN3456789012345''"
    unfolding get_def lookup_def strip_values_def py_dict_def strip_def py_isspace_def by simp
  have first: "\<exists>line. encode_row py_libs [''Dt'', ''CtrPty''] (?rows ! j) = Inr line" if "j < 1" for j
    using that by (simp add: encode_two_columns)
  have "\<exists>i < length ?rows.
           (\<forall>j < i. \<exists>line. encode_row py_libs [''Dt'', ''CtrPty''] (?rows ! j) = Inr line)
         \<and> (\<exists>d1. normalize_dt py_libs (strip_values (py_dict (zip [''Dt'', ''CtrPty''] (?rows ! i))))
                   = Inr d1)
         \<and> ''IN3456789012345''
             = get (strip_values (py_dict (zip [''Dt'', ''CtrPty''] (?rows ! i)))) ''CtrPty'' ''''
         \<and> (''IN3456789012345'' = [] \<or> length ''IN3456789012345'' \<noteq> 16)"
  proof (intro exI [of _ 1] conjI)
    show "1 < length ?rows" by simp
    show "\<forall>j < 1. \<exists>line. encode_row py_libs [''Dt'', ''CtrPty''] (?rows ! j) = Inr line"
      using first by blast
    show "\<exists>d1. normalize_dt py_libs (strip_values (py_dict (zip [''Dt'', ''CtrPty''] (?rows ! 1))))
                   = Inr d1"
    proof -
      have "?rows ! 1 = [''01/01/2025'', ''IN3456789012345'']" by simp
      with normalize_dt_15 show ?thesis by (intro exI) (simp only:)
    qed
    show "''IN3456789012345''
             = get (strip_values (py_dict (zip [''Dt'', ''CtrPty''] (?rows ! 1)))) ''CtrPty'' ''''"
    proof -
      have "?rows ! 1 = [''01/01/2025'', ''IN3456789012345'']" by simp
      with c15 show ?thesis by (simp only:)
    qed
    show "''IN3456789012345'' = [] \<or> length ''IN3456789012345'' \<noteq> 16" by simp
  qed
  with w [THEN conjunct2, THEN conjunct1]
  have b: "build_body py_libs [''Dt'', ''CtrPty''] ?rows = Inl (InvalidCtrPty ''IN3456789012345'')"
    by (rule iffD2)
  with w [THEN conjunct1]
  have "fst (upload_csv py_libs (env_on nov3 True) st_empty (Some ?f))
          = InvalidCtrPty ''IN3456789012345''"
    by (rule iffD2)
  with b show ?thesis by blast
qed

text \<open>
  Claim C5 as stated fails for the batch: the second data row has the 5-character
  identifier \<open>SHORT\<close>, yet the answer is the quantity error of the first row, whose
  identifier is valid and whose quantity is \<open>abc\<close>.
\<close>

theorem later_invalid_counterparty_unreported:
  "upload_csv py_libs (env_on nov3 True) st_empty
     (Some \<lparr>filename = ''batch.csv'',
            content = ''Dt,CtrPty,Qty\<newline>01/01/2025,INXXXXXXXXXXXXXX,abc\<newline>01/01/2025,SHORT,1\<newline>''\<rparr>)
   = (InvalidQty ''abc'',
      st_empty\<lparr>db_counter := Some \<lparr>last_id = 1, last_date = ''2026-11-03''\<rparr>\<rparr>)
   \<and> csv_reader py_libs ''Dt,CtrPty,Qty\<newline>01/01/2025,INXXXXXXXXXXXXXX,abc\<newline>01/01/2025,SHORT,1\<newline>''
     = Some [[''Dt'', ''CtrPty'', ''Qty''], [''01/01/2025'', ''INXXXXXXXXXXXXXX'', ''abc''],
             [''01/01/2025'', ''SHORT'', ''1'']]
   \<and> get (strip_values (py_dict (zip [''Dt'', ''CtrPty'', ''Qty''] [''01/01/2025'', ''SHORT'', ''1''])))
        ''CtrPty'' '''' = ''SHORT''
   \<and> length ''SHORT'' \<noteq> 16"
proof -
  have c: "csv_reader py_libs = csv_rows" by (simp add: py_libs_def)
  have d: "find_duplicate (env_on nov3 True) st_empty h = None" for h
    by (simp add: find_duplicate_def st_empty_def)
  have 1: "upload_csv py_libs (env_on nov3 True) st_empty
     (Some \<lparr>filename = ''batch.csv'',
            content = ''Dt,CtrPty,Qty\<newline>01/01/2025,INXXXXXXXXXXXXXX,abc\<newline>01/01/2025,SHORT,1\<newline>''\<rparr>)
   = (InvalidQty ''abc'',
      st_empty\<lparr>db_counter := Some \<lparr>last_id = 1, last_date = ''2026-11-03''\<rparr>\<rparr>)"
    unfolding upload_csv_def
    by (simp add: c d csv_qty_first validate_qty_first encode_qty_first alloc_first_nov3)
  have 2: "get (strip_values (py_dict (zip [''Dt'', ''CtrPty'', ''Qty''] [''01/01/2025'', ''SHORT'', ''1''])))
        ''CtrPty'' '''' = ''SHORT''"
    unfolding get_def lookup_def strip_values_def py_dict_def strip_def py_isspace_def by simp
  from 1 2 show ?thesis by (simp add: c csv_qty_first)
qed

section \<open>Resubmission\<close>






section \<open>The envelope\<close>







section \<open>Batch date validation\<close>













end
